theory Spec2Isabelle
  imports Complex_Main
begin

section \<open>Numeric conventions\<close>

text \<open>
  The panorama pipeline computes on Python and NumPy floating-point numbers. Scalar
  \<open>float64\<close> arithmetic is read as arithmetic on real numbers. The point arrays of the
  estimator and the canvas of the compositor are \<open>float32\<close>, and there the result of
  every array operation is rounded: the estimator's functions take the rounding of the
  element type as their first argument, the compositor rounds with \<open>round32\<close>. The
  coordinate maps of the projector are read as real numbers. Infinities and NaN are
  outside the model. A Python exception is a value of \<open>py_error\<close>, returned on the left
  of a sum (\<open>Cv2Error\<close> is OpenCV's \<open>cv2.error\<close>). Integer counts (lengths, inlier
  counts, pixel indices) are \<open>nat\<close> or \<open>int\<close>.
\<close>

datatype py_error = ValueError | ZeroDivisionError | OverflowError | IndexError | Cv2Error

text \<open>\<open>np.round\<close> and the rounding of IEEE arithmetic: a half goes to the even neighbour.\<close>

definition np_round :: "real \<Rightarrow> int" where
  "np_round x =
     (let f = \<lfloor>x\<rfloor>; d = x - of_int f
      in if d < 1 / 2 then f else if d > 1 / 2 then f + 1 else if even f then f else f + 1)"

text \<open>
  \<open>round32\<close> is the rounding of a real number to the nearest \<open>float32\<close> value: 24
  significant bits, the exponent of the binade of \<open>x\<close> and not below \<open>-126\<close> (the
  subnormal range). Overflow to infinity, beyond \<open>2^128\<close>, is not modelled.
\<close>

definition pow2 :: "int \<Rightarrow> real" where
  "pow2 e = (if 0 \<le> e then 2 ^ nat e else 1 / 2 ^ nat (- e))"

definition round32 :: "real \<Rightarrow> real" where
  "round32 x =
     (if x = 0 then 0
      else
        let e = max \<lfloor>log 2 \<bar>x\<bar>\<rfloor> (- 126);
            ulp = pow2 (e - 23)
        in real_of_int (np_round (x / ulp)) * ulp)"

lemma np_round_of_int: "np_round (of_int m) = m"
  by (simp add: np_round_def)

lemma round32_0: "round32 0 = 0"
  by (simp add: round32_def)

lemma pow2_powr: "pow2 e = 2 powr real_of_int e"
  by (simp add: pow2_def powr_realpow [symmetric] powr_minus divide_inverse)

lemma pow2_pos: "0 < pow2 e"
  by (simp add: pow2_powr)

lemma floor_log2_eq:
  assumes "pow2 e \<le> x" "x < pow2 (e + 1)"
  shows "\<lfloor>log 2 x\<rfloor> = e"
proof -
  have pos: "0 < x" using assms(1) pow2_pos [of e] by linarith
  show ?thesis
    using assms pos by (simp add: floor_log_eq_powr_iff pow2_powr)
qed

lemma round32_binade:
  assumes "pow2 e \<le> \<bar>x\<bar>" "\<bar>x\<bar> < pow2 (e + 1)" "- 126 \<le> e"
  shows "round32 x = real_of_int (np_round (x / pow2 (e - 23))) * pow2 (e - 23)"
proof -
  have "x \<noteq> 0" using assms(1) pow2_pos [of e] by linarith
  moreover have "\<lfloor>log 2 \<bar>x\<bar>\<rfloor> = e" using assms(1,2) by (rule floor_log2_eq)
  ultimately show ?thesis using assms(3) by (simp add: round32_def Let_def max_def)
qed

lemma round32_half: "round32 (1 / 2) = 1 / 2"
  using round32_binade [of "-1" "1 / 2"] by (simp add: np_round_def pow2_def)

lemma round32_quarter: "round32 (1 / 4) = 1 / 4"
  using round32_binade [of "-2" "1 / 4"] by (simp add: np_round_def pow2_def)

text \<open>The tie \<open>0.5 - 16777216 = -16777215.5\<close> rounds to the even neighbour.\<close>

lemma round32_tie: "round32 (- (33554431 / 2)) = - 16777216"
  using round32_binade [of 23 "- (33554431 / 2)"] by (simp add: np_round_def pow2_def)

lemma round32_neg_half: "round32 (- (1 / 2)) = - (1 / 2)"
  using round32_binade [of "-1" "- (1 / 2)"] by (simp add: np_round_def pow2_def)

lemma round32_of_int:
  assumes "\<bar>n\<bar> < 2 ^ 24"
  shows "round32 (of_int n) = of_int n"
proof (cases "n = 0")
  case True
  then show ?thesis by (simp add: round32_0)
next
  case False
  define e where "e = \<lfloor>log 2 \<bar>real_of_int n\<bar>\<rfloor>"
  have one: "1 \<le> \<bar>real_of_int n\<bar>" using False by (simp flip: of_int_abs)
  have lt: "\<bar>real_of_int n\<bar> < 2 ^ 24"
    using assms by (metis of_int_abs of_int_less_numeral_power_cancel_iff)
  have "0 \<le> log 2 \<bar>real_of_int n\<bar>" using one by simp
  then have e0: "0 \<le> e" by (simp add: e_def)
  have "\<bar>real_of_int n\<bar> < 2 powr 24" using lt by simp
  then have "log 2 \<bar>real_of_int n\<bar> < 24"
    using one by (subst log_less_iff) simp_all
  then have e23: "e \<le> 23" unfolding e_def by linarith
  have ulp: "pow2 (e - 23) = 1 / 2 ^ nat (23 - e)"
    using e23 by (cases "e = 23") (simp_all add: pow2_def)
  have "real_of_int n / pow2 (e - 23) = real_of_int (n * 2 ^ nat (23 - e))"
    by (simp add: ulp)
  then have "np_round (real_of_int n / pow2 (e - 23)) = n * 2 ^ nat (23 - e)"
    by (simp only: np_round_of_int)
  moreover have "max e (- 126) = e" using e0 by simp
  ultimately show ?thesis
    using False by (simp add: round32_def Let_def e_def [symmetric] ulp)
qed

lemma round32_numeral [simp]:
  "(numeral w :: int) < 2 ^ 24 \<Longrightarrow> round32 (numeral w) = numeral w"
  using round32_of_int [of "numeral w"] by simp

lemma round32_neg_numeral [simp]:
  "(numeral w :: int) < 2 ^ 24 \<Longrightarrow> round32 (- numeral w) = - numeral w"
  using round32_of_int [of "- numeral w"] by simp

lemma round32_1 [simp]: "round32 1 = 1"
  using round32_of_int [of 1] by simp

lemma round32_0' [simp]: "round32 0 = 0"
  by (rule round32_0)

section \<open>Pixel arrays\<close>

text \<open>
  An array of pixels with its shape: \<open>height\<close> and \<open>width\<close> are \<open>shape[0]\<close> and
  \<open>shape[1]\<close>, \<open>pixel img y x\<close> is \<open>img[y, x]\<close> for \<open>y < height img\<close> and
  \<open>x < width img\<close>.
\<close>

record 'px ndarray =
  height :: nat
  width :: nat
  pixel :: "nat \<Rightarrow> nat \<Rightarrow> 'px"

section \<open>Cylindrical projector (warping/cylindrical.py)\<close>

text \<open>
  \<^verbatim>\<open>cv2.remap(image, map_x, map_y, interpolation=cv2.INTER_LINEAR,
  borderMode=cv2.BORDER_CONSTANT)\<close> is OpenCV's and is modelled from its documentation:
  the destination pixel \<open>(x, y)\<close> is the source sampled at \<open>(map_x(x, y), map_y(x, y))\<close>,
  \<open>INTER_LINEAR\<close> interpolates bilinearly between the four pixels around that point, and
  with \<open>BORDER_CONSTANT\<close> a pixel outside the source counts as the border value, which
  defaults to 0. The model has one channel with real values: the three channels are
  treated alike, and neither the \<open>float32\<close> storage of the two maps, the fixed-point
  interpolation weights of OpenCV, nor the cast of the result to the pixel type is
  modelled. An empty array makes \<open>cv2.remap\<close> raise \<open>cv2.error\<close>.
\<close>

definition border_pixel :: "real ndarray \<Rightarrow> int \<Rightarrow> int \<Rightarrow> real" where
  "border_pixel src x y =
     (if 0 \<le> x \<and> x < int (width src) \<and> 0 \<le> y \<and> y < int (height src)
      then pixel src (nat y) (nat x) else 0)"

definition bilinear :: "real ndarray \<Rightarrow> real \<Rightarrow> real \<Rightarrow> real" where
  "bilinear src sx sy =
     (let x0 = \<lfloor>sx\<rfloor>; y0 = \<lfloor>sy\<rfloor>;
          fx = sx - of_int x0; fy = sy - of_int y0
      in (1 - fx) * (1 - fy) * border_pixel src x0 y0
         + fx * (1 - fy) * border_pixel src (x0 + 1) y0
         + (1 - fx) * fy * border_pixel src x0 (y0 + 1)
         + fx * fy * border_pixel src (x0 + 1) (y0 + 1))"

definition remap ::
  "real ndarray \<Rightarrow> (nat \<Rightarrow> nat \<Rightarrow> real) \<Rightarrow> (nat \<Rightarrow> nat \<Rightarrow> real) \<Rightarrow> nat \<Rightarrow> nat
     \<Rightarrow> py_error + real ndarray" where
  "remap src map_x map_y h w =
     (if h = 0 \<or> w = 0 \<or> height src = 0 \<or> width src = 0 then Inl Cv2Error
      else Inr \<lparr>height = h, width = w,
                pixel = (\<lambda>y x. bilinear src (map_x y x) (map_y y x))\<rparr>)"

text \<open>
  \<^verbatim>\<open>warp_cylindrical\<close>. \<open>center\<close> is \<open>None\<close> for the default, the image centre
  \<open>(w / 2.0, h / 2.0)\<close>. The two loops fill the maps of shape \<open>(h, w)\<close>; a focal
  length 0 raises \<open>ZeroDivisionError\<close> at the first pixel. The maps are then given to
  \<open>cv2.remap\<close>.
\<close>

definition warp_cylindrical_impl ::
  "real ndarray \<Rightarrow> real \<Rightarrow> (real \<times> real) option \<Rightarrow> py_error + real ndarray" where
  "warp_cylindrical_impl img focal_length center =
     (let h = height img; w = width img;
          (xc, yc) = (case center of None \<Rightarrow> (real w / 2, real h / 2) | Some c \<Rightarrow> c);
          theta = (\<lambda>y_cyl. (real y_cyl - yc) / focal_length);
          w_normalized = (\<lambda>x_cyl. (real x_cyl - xc) / focal_length);
          map_x = (\<lambda>y_cyl x_cyl. focal_length * w_normalized x_cyl / cos (theta y_cyl) + xc);
          map_y = (\<lambda>y_cyl x_cyl :: nat. focal_length * tan (theta y_cyl) + yc)
      in if 0 < h \<and> 0 < w \<and> focal_length = 0 then Inl ZeroDivisionError
         else remap img map_x map_y h w)"

lemma bilinear_outside:
  assumes "sx \<le> - 1 \<or> real (width src) \<le> sx \<or> sy \<le> - 1 \<or> real (height src) \<le> sy"
  shows "bilinear src sx sy = 0"
proof -
  have left: "border_pixel src \<lfloor>sx\<rfloor> y = 0
      \<and> (sx - of_int \<lfloor>sx\<rfloor>) * border_pixel src (\<lfloor>sx\<rfloor> + 1) y = 0" if "sx \<le> - 1" for y
  proof (cases "sx = - 1")
    case True
    then show ?thesis by (simp add: border_pixel_def)
  next
    case False
    with that have lt: "sx < - 1" by simp
    then have "\<lfloor>sx\<rfloor> + 1 < 0" by linarith
    with lt show ?thesis by (simp add: border_pixel_def)
  qed
  have right: "border_pixel src \<lfloor>sx\<rfloor> y = 0 \<and> border_pixel src (\<lfloor>sx\<rfloor> + 1) y = 0"
    if "real (width src) \<le> sx" for y
  proof -
    from that have "int (width src) \<le> \<lfloor>sx\<rfloor>" by linarith
    with that show ?thesis by (simp add: border_pixel_def)
  qed
  have top: "border_pixel src x \<lfloor>sy\<rfloor> = 0
      \<and> (sy - of_int \<lfloor>sy\<rfloor>) * border_pixel src x (\<lfloor>sy\<rfloor> + 1) = 0" if "sy \<le> - 1" for x
  proof (cases "sy = - 1")
    case True
    then show ?thesis by (simp add: border_pixel_def)
  next
    case False
    with that have lt: "sy < - 1" by simp
    then have "\<lfloor>sy\<rfloor> + 1 < 0" by linarith
    with lt show ?thesis by (simp add: border_pixel_def)
  qed
  have bottom: "border_pixel src x \<lfloor>sy\<rfloor> = 0 \<and> border_pixel src x (\<lfloor>sy\<rfloor> + 1) = 0"
    if "real (height src) \<le> sy" for x
  proof -
    from that have "int (height src) \<le> \<lfloor>sy\<rfloor>" by linarith
    with that show ?thesis by (simp add: border_pixel_def)
  qed
  from assms consider "sx \<le> - 1" | "real (width src) \<le> sx" | "sy \<le> - 1"
    | "real (height src) \<le> sy" by blast
  then show ?thesis
  proof cases
    case 1
    from left [OF 1, of "\<lfloor>sy\<rfloor>"] left [OF 1, of "\<lfloor>sy\<rfloor> + 1"] show ?thesis
      by (auto simp: bilinear_def Let_def)
  next
    case 2
    from right [OF 2, of "\<lfloor>sy\<rfloor>"] right [OF 2, of "\<lfloor>sy\<rfloor> + 1"] show ?thesis
      by (auto simp: bilinear_def Let_def)
  next
    case 3
    from top [OF 3, of "\<lfloor>sx\<rfloor>"] top [OF 3, of "\<lfloor>sx\<rfloor> + 1"] show ?thesis
      by (auto simp: bilinear_def Let_def)
  next
    case 4
    from bottom [OF 4, of "\<lfloor>sx\<rfloor>"] bottom [OF 4, of "\<lfloor>sx\<rfloor> + 1"] show ?thesis
      by (auto simp: bilinear_def Let_def)
  qed
qed

lemma bilinear_at_pixel:
  assumes "a < width src" "b < height src"
  shows "bilinear src (real a) (real b) = pixel src b a"
  using assms by (simp add: bilinear_def border_pixel_def Let_def)

text \<open>
  Claim C1, as amended. For an image with at least one pixel, a focal length other than 0
  and angles \<open>th\<close> whose cosine is not 0, the projector returns an image of the input's
  dimensions whose pixel \<open>(x_cyl, y_cyl)\<close> is the bilinear sample of the source at
  \<open>(x_src, y_src)\<close>, source pixels outside the image counting as 0. The pixel is 0 when
  \<open>(x_src, y_src)\<close> lies a whole pixel or more outside the source, and it is the source
  pixel when \<open>(x_src, y_src)\<close> is a pixel position of the source.
\<close>

theorem warp_cylindrical_bilinear:
  fixes img :: "real ndarray" and f :: real and center :: "(real \<times> real) option"
  defines "xc \<equiv> (case center of None \<Rightarrow> real (width img) / 2 | Some c \<Rightarrow> fst c)"
    and "yc \<equiv> (case center of None \<Rightarrow> real (height img) / 2 | Some c \<Rightarrow> snd c)"
  defines "th \<equiv> (\<lambda>y_cyl :: nat. (real y_cyl - yc) / f)"
    and "u \<equiv> (\<lambda>x_cyl :: nat. (real x_cyl - xc) / f)"
  defines "x_src \<equiv> (\<lambda>x_cyl y_cyl. f * u x_cyl / cos (th y_cyl) + xc)"
    and "y_src \<equiv> (\<lambda>y_cyl. f * tan (th y_cyl) + yc)"
  assumes size: "0 < height img" "0 < width img"
    and f: "f \<noteq> 0"
    and th: "\<forall>y_cyl < height img. cos (th y_cyl) \<noteq> 0"
  shows "\<exists>warped. warp_cylindrical_impl img f center = Inr warped
    \<and> height warped = height img \<and> width warped = width img
    \<and> (\<forall>y_cyl < height img. \<forall>x_cyl < width img.
          pixel warped y_cyl x_cyl = bilinear img (x_src x_cyl y_cyl) (y_src y_cyl)
          \<and> (x_src x_cyl y_cyl \<le> - 1 \<or> real (width img) \<le> x_src x_cyl y_cyl
               \<or> y_src y_cyl \<le> - 1 \<or> real (height img) \<le> y_src y_cyl
             \<longrightarrow> pixel warped y_cyl x_cyl = 0)
          \<and> (\<forall>a < width img. \<forall>b < height img.
                x_src x_cyl y_cyl = real a \<and> y_src y_cyl = real b
                \<longrightarrow> pixel warped y_cyl x_cyl = pixel img b a))"
proof -
  let ?warped = "\<lparr>height = height img, width = width img,
      pixel = (\<lambda>y_cyl x_cyl. bilinear img (x_src x_cyl y_cyl) (y_src y_cyl))\<rparr>"
  have c: "(case center of None \<Rightarrow> (real (width img) / 2, real (height img) / 2) | Some c \<Rightarrow> c)
      = (xc, yc)"
    by (simp add: xc_def yc_def split: option.splits)
  from size f have "warp_cylindrical_impl img f center = Inr ?warped"
    by (simp add: warp_cylindrical_impl_def remap_def Let_def c x_src_def y_src_def
        th_def u_def)
  moreover have "pixel ?warped y_cyl x_cyl = 0"
    if "x_src x_cyl y_cyl \<le> - 1 \<or> real (width img) \<le> x_src x_cyl y_cyl
         \<or> y_src y_cyl \<le> - 1 \<or> real (height img) \<le> y_src y_cyl" for x_cyl y_cyl
    using bilinear_outside [OF that] by simp
  moreover have "pixel ?warped y_cyl x_cyl = pixel img b a"
    if "a < width img" "b < height img" "x_src x_cyl y_cyl = real a" "y_src y_cyl = real b"
    for x_cyl y_cyl a b
    using bilinear_at_pixel [OF that(1,2)] that(3,4) by simp
  ultimately show ?thesis
    by (intro exI [of _ ?warped]) auto
qed

text \<open>
  A single pixel of value 100, focal length \<open>4 / pi\<close> and centre \<open>(4, 1)\<close>: the angle is
  \<open>- pi / 4\<close> and \<open>x_src = 4 - 4 * sqrt 2\<close> lies more than a pixel to the left of the
  source.
\<close>

theorem warp_cylindrical_bilinear_witness:
  "\<exists>warped. warp_cylindrical_impl \<lparr>height = 1, width = 1, pixel = (\<lambda>y x. 100)\<rparr> (4 / pi)
       (Some (4, 1)) = Inr warped
     \<and> height warped = 1 \<and> width warped = 1 \<and> pixel warped 0 0 = 0"
proof -
  have s: "5 / 4 \<le> sqrt 2"
    by (rule real_le_rsqrt) (simp add: power2_eq_square)
  have a: "- 1 / (4 / pi) = - (pi / 4)" by simp
  have x: "4 / pi * (- 4 / (4 / pi)) / (sqrt 2 / 2) + 4 \<le> - 1"
  proof -
    have "4 / pi * (- 4 / (4 / pi)) / (sqrt 2 / 2) = - 8 / sqrt 2" by simp
    also have "\<dots> = - 4 * sqrt 2"
    proof -
      have "sqrt 2 * sqrt 2 = 2" by simp
      then show ?thesis by (simp add: field_simps)
    qed
    finally show ?thesis using s by simp
  qed
  from warp_cylindrical_bilinear [where img = "\<lparr>height = 1, width = 1, pixel = (\<lambda>y x. 100)\<rparr>"
      and center = "Some (4, 1)" and f = "4 / pi"] x
  show ?thesis
    by (auto simp: cos_45 tan_45)
qed

text \<open>
  The claim as stated has the zero sentinel at every source position outside the source
  bounds. With focal length \<open>2 / pi\<close> and centre \<open>(0, 1 / 2)\<close> the single pixel is sampled
  at \<open>x_src = 0\<close> and \<open>y_src = 1 / 2 - 2 / pi\<close>, which is above the first row, and its
  value is the first row's pixel weighted by \<open>3 / 2 - 2 / pi\<close>.
\<close>

theorem warp_cylindrical_border_counterexample:
  "\<exists>warped. warp_cylindrical_impl \<lparr>height = 1, width = 1, pixel = (\<lambda>y x. 100)\<rparr> (2 / pi)
       (Some (0, 1 / 2)) = Inr warped
     \<and> 2 / pi * tan ((real 0 - 1 / 2) / (2 / pi)) + 1 / 2 < 0
     \<and> pixel warped 0 0 = 100 * (3 / 2 - 2 / pi)
     \<and> pixel warped 0 0 \<noteq> 0"
proof -
  have p: "1 / 2 < 2 / pi" "2 / pi \<le> 1"
    using pi_less_4 pi_ge_two pi_gt_zero by (simp_all add: field_simps)
  have a: "- (1 / 2) / (2 / pi) = - (pi / 4)" "- 1 / 2 / (2 / pi) = - (pi / 4)"
    "(0 - 1 / 2) / (2 / pi) = - (pi / 4)"
    by simp_all
  have fl: "\<lfloor>1 / 2 - 2 / pi\<rfloor> = - 1"
  proof (rule floor_unique)
    show "of_int (- 1) \<le> 1 / 2 - 2 / pi" using p by linarith
    show "1 / 2 - 2 / pi < of_int (- 1) + 1" using p by linarith
  qed
  have b: "bilinear \<lparr>height = 1, width = 1, pixel = (\<lambda>y x. 100)\<rparr> 0 (1 / 2 - 2 / pi)
      = 100 * (3 / 2 - 2 / pi)"
    by (simp add: bilinear_def border_pixel_def fl Let_def)
  have "0 < 100 * (3 / 2 - 2 / pi)"
    using pi_ge_two pi_gt_zero by (simp add: field_simps)
  then have ne: "100 * (3 / 2 - 2 / pi) \<noteq> (0 :: real)"
    by (rule less_imp_neq [THEN not_sym])
  have w: "warp_cylindrical_impl \<lparr>height = 1, width = 1, pixel = (\<lambda>y x. 100)\<rparr> (2 / pi)
       (Some (0, 1 / 2)) =
     Inr \<lparr>height = 1, width = 1,
          pixel = (\<lambda>y_cyl x_cyl. bilinear \<lparr>height = 1, width = 1, pixel = (\<lambda>y x. 100)\<rparr>
             (2 / pi * ((real x_cyl - 0) / (2 / pi)) / cos ((real y_cyl - 1 / 2) / (2 / pi)) + 0)
             (2 / pi * tan ((real y_cyl - 1 / 2) / (2 / pi)) + 1 / 2))\<rparr>"
    by (simp add: warp_cylindrical_impl_def remap_def Let_def)
  have lt: "2 / pi * tan ((real 0 - 1 / 2) / (2 / pi)) + 1 / 2 < 0"
    using p by (simp add: a tan_45)
  have px: "bilinear \<lparr>height = 1, width = 1, pixel = (\<lambda>y x. 100)\<rparr>
             (2 / pi * ((real 0 - 0) / (2 / pi)) / cos ((real 0 - 1 / 2) / (2 / pi)) + 0)
             (2 / pi * tan ((real 0 - 1 / 2) / (2 / pi)) + 1 / 2) = 100 * (3 / 2 - 2 / pi)"
    using b by (simp add: a tan_45)
  show ?thesis
    unfolding w using lt px ne by simp
qed

section \<open>Sequence accumulator (stitching/blending.py)\<close>

text \<open>
  \<^verbatim>\<open>compute_cumulative_translations\<close>: the list \<open>cumulative\<close> starts as \<open>[(0.0, 0.0)]\<close>,
  the running position \<open>(current_x, current_y)\<close> as \<open>(0.0, 0.0)\<close>; for each pairwise
  \<open>(dx, dy)\<close> the loop does \<open>current_y -= dy\<close> and appends \<open>(current_x, current_y)\<close>.
  The line \<open>current_x -= dx\<close> is commented out in the source. The loop needs only a zero
  and a subtraction, so the model is polymorphic in the number type.
\<close>

fun cumulative_loop ::
  "'a::{zero,minus} \<Rightarrow> 'a \<Rightarrow> ('a \<times> 'a) list \<Rightarrow> ('a \<times> 'a) list \<Rightarrow> ('a \<times> 'a) list" where
  "cumulative_loop current_x current_y cumulative [] = cumulative"
| "cumulative_loop current_x current_y cumulative ((dx, dy) # rest) =
     (let current_y' = current_y - dy
      in cumulative_loop current_x current_y' (cumulative @ [(current_x, current_y')]) rest)"

definition compute_cumulative_translations ::
  "('a::{zero,minus} \<times> 'a) list \<Rightarrow> ('a \<times> 'a) list" where
  "compute_cumulative_translations pairwise_translations =
     cumulative_loop 0 0 [(0, 0)] pairwise_translations"

text \<open>The vertical positions the loop goes through after its start value.\<close>

fun running_y :: "'a::minus \<Rightarrow> ('a \<times> 'a) list \<Rightarrow> 'a list" where
  "running_y y [] = []"
| "running_y y (p # rest) = (y - snd p) # running_y (y - snd p) rest"

lemma cumulative_loop_append:
  "cumulative_loop cx cy acc ps = acc @ map (Pair cx) (running_y cy ps)"
  by (induction ps arbitrary: cy acc) (auto simp: Let_def)

lemma length_running_y: "length (running_y y ps) = length ps"
  by (induction ps arbitrary: y) auto

lemma running_y_step:
  "i < length ps \<Longrightarrow> (y # running_y y ps) ! Suc i = (y # running_y y ps) ! i - snd (ps ! i)"
proof (induction ps arbitrary: y i)
  case Nil
  then show ?case by simp
next
  case (Cons p ps)
  show ?case
  proof (cases i)
    case 0
    then show ?thesis by simp
  next
    case (Suc j)
    with Cons.prems have "j < length ps" by simp
    from Cons.IH [OF this, of "y - snd p"] Suc show ?thesis by simp
  qed
qed

lemma cumulative_as_map:
  "compute_cumulative_translations ps = map (Pair 0) (0 # running_y 0 ps)"
  by (simp add: compute_cumulative_translations_def cumulative_loop_append)

text \<open>
  Claim C2. For a list of \<open>n\<close> pairwise translations the accumulator returns \<open>n + 1\<close>
  offsets; the first is \<open>(0, 0)\<close>; each next vertical offset is the previous one minus the
  pair's \<open>dy\<close>; every horizontal offset is \<open>0\<close>; and the pairwise list
  \<open>[(0,-10),(0,-10),(0,-10)]\<close> gives \<open>[(0,0),(0,10),(0,20),(0,30)]\<close>.
\<close>

theorem accumulate_offsets:
  fixes ps :: "('a::{zero,minus} \<times> 'a) list"
  shows "length (compute_cumulative_translations ps) = length ps + 1
    \<and> compute_cumulative_translations ps ! 0 = (0, 0)
    \<and> (\<forall>i<length ps.
          snd (compute_cumulative_translations ps ! (i + 1)) =
          snd (compute_cumulative_translations ps ! i) - snd (ps ! i))
    \<and> (\<forall>i<length (compute_cumulative_translations ps).
          fst (compute_cumulative_translations ps ! i) = 0)
    \<and> compute_cumulative_translations [(0, -10), (0, -10), (0, -10 :: real)] =
          [(0, 0), (0, 10), (0, 20), (0, 30)]"
proof (intro conjI allI impI)
  show "length (compute_cumulative_translations ps) = length ps + 1"
    by (simp add: cumulative_as_map length_running_y)
  show "compute_cumulative_translations ps ! 0 = (0, 0)"
    by (simp add: cumulative_as_map)
next
  fix i assume i: "i < length ps"
  then have "i < length (0 # running_y 0 ps)" "Suc i < length (0 # running_y 0 ps)"
    by (simp_all add: length_running_y)
  then show "snd (compute_cumulative_translations ps ! (i + 1)) =
      snd (compute_cumulative_translations ps ! i) - snd (ps ! i)"
    using running_y_step [OF i, of 0]
    by (simp only: cumulative_as_map nth_map Suc_eq_plus1 [symmetric] snd_conv)
next
  fix i assume "i < length (compute_cumulative_translations ps)"
  then have "i < length (0 # running_y 0 ps)"
    by (simp add: cumulative_as_map)
  then show "fst (compute_cumulative_translations ps ! i) = 0"
    by (simp only: cumulative_as_map nth_map fst_conv)
next
  show "compute_cumulative_translations [(0, -10), (0, -10), (0, -10 :: real)] =
      [(0, 0), (0, 10), (0, 20), (0, 30)]"
    by (simp add: compute_cumulative_translations_def)
qed

theorem accumulate_offsets_witness:
  "length (compute_cumulative_translations [(3, -10), (7, 4 :: int)]) = 3
   \<and> snd (compute_cumulative_translations [(3, -10), (7, 4 :: int)] ! 2) =
       snd (compute_cumulative_translations [(3, -10), (7, 4 :: int)] ! 1) - 4
   \<and> fst (compute_cumulative_translations [(3, -10), (7, 4 :: int)] ! 2) = 0
   \<and> compute_cumulative_translations [(3, -10), (7, 4 :: int)] = [(0, 0), (0, 10), (0, 6)]"
  using accumulate_offsets [of "[(3, -10), (7, 4 :: int)]"]
  by (simp add: compute_cumulative_translations_def)


section \<open>Translation records\<close>

text \<open>
  The estimator and the pipeline pass dictionaries. Every one of them has the keys
  \<open>translation\<close>, \<open>num_inliers\<close> and \<open>inlier_ratio\<close>; the estimator's result adds
  the mask \<open>inliers\<close>, a record of the pipeline's list \<open>self.translations\<close> adds \<open>pair\<close> and
  \<open>num_matches\<close>. The functions of \<^verbatim>\<open>drift.py\<close> read the common keys only, so they are
  stated on the common record scheme.
\<close>

record estimate =
  translation :: "real \<times> real"
  num_inliers :: nat
  inlier_ratio :: real

record ransac_result = estimate +
  inliers :: "bool list"

record pair_record = estimate +
  pair :: "nat \<times> nat"
  num_matches :: nat

section \<open>Drift corrector (stitching/drift.py)\<close>

record drift_correction =
  corrected_focal_length :: real
  original_focal_length :: real
  gap_angle :: real
  gap_angle_degrees :: real
  correction_per_pair :: real
  num_images :: nat
  correction_applied :: bool

text \<open>
  \<^verbatim>\<open>correct_drift\<close>. The source divides by \<open>focal_length\<close> twice
  (\<open>theta_accumulated\<close>, which it never uses, and \<open>theta_gap\<close>). With a zero focal length
  Python operands raise \<open>ZeroDivisionError\<close> and NumPy operands give an infinity or NaN;
  neither is a real number, so the model returns the error there.
  \<open>np.degrees\<close> multiplies by \<open>180 / pi\<close>. The argument \<open>image_width\<close> is not used by
  the source.
\<close>

definition correct_drift ::
  "('a estimate_scheme) list \<Rightarrow> 'b estimate_scheme \<Rightarrow> real \<Rightarrow> nat
     \<Rightarrow> py_error + drift_correction" where
  "correct_drift translations first_last_translation focal_length image_width =
     (let n_images = length translations + 1;
          (dx_gap, dy_gap) = translation first_last_translation;
          total_dy = sum_list (map (\<lambda>t. snd (translation t)) translations)
      in if focal_length = 0 then Inl ZeroDivisionError
         else
           let theta_accumulated = total_dy / focal_length;
               theta_gap = dy_gap / focal_length;
               correction_per_pair = theta_gap / real n_images;
               corrected_focal_length = focal_length * (1 - theta_gap / (2 * pi))
           in Inr \<lparr>corrected_focal_length = corrected_focal_length,
                    original_focal_length = focal_length,
                    gap_angle = theta_gap,
                    gap_angle_degrees = theta_gap * (180 / pi),
                    correction_per_pair = correction_per_pair,
                    num_images = n_images,
                    correction_applied = True\<rparr>)"

text \<open>
  \<^verbatim>\<open>should_apply_drift_correction\<close>, with its two early returns in the source's order.
  The default of \<open>min_inlier_ratio\<close> is \<open>0.3\<close>; the pipeline calls it with the default.
\<close>

definition should_apply_drift_correction :: "'a estimate_scheme \<Rightarrow> real \<Rightarrow> bool" where
  "should_apply_drift_correction first_last_match_quality min_inlier_ratio =
     (if num_inliers first_last_match_quality < 10 then False
      else if inlier_ratio first_last_match_quality < min_inlier_ratio then False
      else True)"

definition default_min_inlier_ratio :: real where
  "default_min_inlier_ratio = 3 / 10"

lemma correct_drift_Inr:
  assumes "focal_length \<noteq> 0"
  shows "correct_drift translations first_last focal_length image_width =
     Inr \<lparr>corrected_focal_length =
            focal_length * (1 - (snd (translation first_last) / focal_length) / (2 * pi)),
          original_focal_length = focal_length,
          gap_angle = snd (translation first_last) / focal_length,
          gap_angle_degrees = snd (translation first_last) / focal_length * (180 / pi),
          correction_per_pair =
            snd (translation first_last) / focal_length / real (length translations + 1),
          num_images = length translations + 1,
          correction_applied = True\<rparr>"
  using assms by (simp add: correct_drift_def Let_def case_prod_unfold)

text \<open>
  Claim C3. For every pairwise list, first/last estimate and non-zero focal length \<open>f\<close>
  the drift corrector returns gap angle \<open>first_last.dy / f\<close> and corrected focal length
  \<open>f * (1 - gap / (2 pi))\<close>; for \<open>f = 500\<close> and \<open>first_last.dy = 500 * (pi / 6)\<close> the
  corrected focal length is \<open>500 * (11 / 12)\<close>, which is within \<open>0.01\<close> of \<open>458.33\<close>.
\<close>

theorem correct_drift_closed_form:
  fixes ts :: "('a estimate_scheme) list" and first_last :: "'b estimate_scheme"
  shows "(focal_length \<noteq> 0 \<longrightarrow>
      (\<exists>r. correct_drift ts first_last focal_length image_width = Inr r
         \<and> gap_angle r = snd (translation first_last) / focal_length
         \<and> corrected_focal_length r = focal_length * (1 - gap_angle r / (2 * pi))))
    \<and> (snd (translation first_last) = 500 * (pi / 6) \<longrightarrow>
      (\<exists>r. correct_drift ts first_last 500 image_width = Inr r
         \<and> corrected_focal_length r = 500 * (11 / 12)
         \<and> \<bar>corrected_focal_length r - 458.33\<bar> < 0.01))"
proof (intro conjI impI)
  assume "focal_length \<noteq> 0"
  then show "\<exists>r. correct_drift ts first_last focal_length image_width = Inr r
         \<and> gap_angle r = snd (translation first_last) / focal_length
         \<and> corrected_focal_length r = focal_length * (1 - gap_angle r / (2 * pi))"
    by (simp add: correct_drift_Inr)
next
  assume dy: "snd (translation first_last) = 500 * (pi / 6)"
  have "(500::real) * (1 - (500 * (pi / 6) / 500) / (2 * pi)) = 500 * (11 / 12)"
    by simp
  then show "\<exists>r. correct_drift ts first_last 500 image_width = Inr r
         \<and> corrected_focal_length r = 500 * (11 / 12)
         \<and> \<bar>corrected_focal_length r - 458.33\<bar> < 0.01"
    by (simp add: correct_drift_Inr dy)
qed

theorem correct_drift_closed_form_witness:
  "\<exists>r. correct_drift
      [\<lparr>translation = (1, -40), num_inliers = 30, inlier_ratio = 3 / 4\<rparr>]
      \<lparr>translation = (2, 500 * (pi / 6)), num_inliers = 12, inlier_ratio = 1 / 2\<rparr>
      500 640 = Inr r
    \<and> gap_angle r = pi / 6
    \<and> corrected_focal_length r = 500 * (11 / 12)"
  using correct_drift_closed_form
    [of 500 "[\<lparr>translation = (1, -40), num_inliers = 30, inlier_ratio = 3 / 4\<rparr>]"
        "\<lparr>translation = (2, 500 * (pi / 6)), num_inliers = 12, inlier_ratio = 1 / 2\<rparr>" 640]
  by auto

section \<open>Robust translation estimator (alignment/ransac.py)\<close>

text \<open>
  \<^verbatim>\<open>estimate_pure_translation_ransac(pts1, pts2, threshold, max_iters)\<close>. The two arrays
  are \<open>N x 2\<close> with the same \<open>N\<close> (\<^verbatim>\<open>extract_match_points\<close> builds both from one list
  of matches); the model is a pair of point lists and is meant for lists of equal
  length. The argument \<open>rnd\<close> is the rounding of the arrays' element type: every
  operation on the arrays returns the rounded exact result. The pipeline passes
  \<open>float32\<close> arrays, so it calls the estimator with \<open>round32\<close>; the identity gives
  arithmetic without rounding. The source draws its sample with
  \<open>np.random.randint(0, n_points)\<close> from the process-wide generator: the model takes the
  draws as a function \<open>draws\<close>, the value of the \<open>k\<close>-th call, each below \<open>n_points\<close>.
\<close>

type_synonym point = "real \<times> real"

text \<open>The hypothesis of one sampled pair: \<open>(dx, dy) = pts2[idx] - pts1[idx]\<close>.\<close>

definition sample_translation ::
  "(real \<Rightarrow> real) \<Rightarrow> point list \<Rightarrow> point list \<Rightarrow> nat \<Rightarrow> real \<times> real" where
  "sample_translation rnd pts1 pts2 idx =
     (rnd (fst (pts2 ! idx) - fst (pts1 ! idx)), rnd (snd (pts2 ! idx) - snd (pts1 ! idx)))"

text \<open>
  One row of \<open>np.linalg.norm(transformed - pts2, axis=1)\<close>, where
  \<open>transformed = pts1 + [dx, dy]\<close>: the sum, the difference, the two squares, their
  sum and the square root are array operations, each rounded.
\<close>

definition residual :: "(real \<Rightarrow> real) \<Rightarrow> real \<times> real \<Rightarrow> point \<Rightarrow> point \<Rightarrow> real" where
  "residual rnd t p1 p2 =
     (let ex = rnd (rnd (fst p1 + fst t) - fst p2);
          ey = rnd (rnd (snd p1 + snd t) - snd p2)
      in rnd (sqrt (rnd (rnd (ex * ex) + rnd (ey * ey)))))"

definition inlier_mask ::
  "(real \<Rightarrow> real) \<Rightarrow> point list \<Rightarrow> point list \<Rightarrow> real \<Rightarrow> real \<times> real \<Rightarrow> bool list" where
  "inlier_mask rnd pts1 pts2 threshold t =
     map (\<lambda>(p1, p2). residual rnd t p1 p2 < threshold) (zip pts1 pts2)"

text \<open>\<open>np.sum\<close> of a boolean mask.\<close>

definition count_true :: "bool list \<Rightarrow> nat" where
  "count_true msk = length (filter id msk)"

text \<open>Boolean-mask indexing \<open>pts[mask]\<close>.\<close>

definition mask_select :: "'a list \<Rightarrow> bool list \<Rightarrow> 'a list" where
  "mask_select xs msk = map fst (filter snd (zip xs msk))"

text \<open>
  \<open>np.median\<close> of a one-dimensional array: the middle element of the sorted array, or
  the mean of the two middle elements (their rounded sum, halved and rounded) when the
  length is even. On an empty array NumPy returns NaN; the estimator calls it on a
  non-empty selection only, and the model's value on the empty list means nothing.
\<close>

definition median :: "(real \<Rightarrow> real) \<Rightarrow> real list \<Rightarrow> real" where
  "median rnd xs =
     (let s = sort xs; n = length s
      in if odd n then s ! (n div 2)
         else rnd (rnd (s ! (n div 2 - 1) + s ! (n div 2)) / 2))"

text \<open>
  The sampling loop on the state \<open>(best_inliers, best_translation, best_mask)\<close>; the list
  is the sequence of drawn indices.
\<close>

fun ransac_loop ::
  "(real \<Rightarrow> real) \<Rightarrow> point list \<Rightarrow> point list \<Rightarrow> real \<Rightarrow> nat list
     \<Rightarrow> nat \<times> (real \<times> real) \<times> bool list \<Rightarrow> nat \<times> (real \<times> real) \<times> bool list" where
  "ransac_loop rnd pts1 pts2 threshold [] best = best"
| "ransac_loop rnd pts1 pts2 threshold (idx # rest) (best_inliers, best_translation, best_mask) =
     (let t = sample_translation rnd pts1 pts2 idx;
          msk = inlier_mask rnd pts1 pts2 threshold t;
          n_in = count_true msk
      in if n_in > best_inliers
         then ransac_loop rnd pts1 pts2 threshold rest (n_in, t, msk)
         else ransac_loop rnd pts1 pts2 threshold rest
                (best_inliers, best_translation, best_mask))"

definition estimate_pure_translation_ransac ::
  "(real \<Rightarrow> real) \<Rightarrow> point list \<Rightarrow> point list \<Rightarrow> real \<Rightarrow> nat \<Rightarrow> (nat \<Rightarrow> nat)
     \<Rightarrow> ransac_result" where
  "estimate_pure_translation_ransac rnd pts1 pts2 threshold max_iters draws =
     (if length pts1 < 1
      then \<lparr>translation = (0, 0), num_inliers = 0, inlier_ratio = 0, inliers = []\<rparr>
      else
        let n_points = length pts1;
            (best_inliers, best_translation, best_mask) =
               ransac_loop rnd pts1 pts2 threshold (map draws [0..<max_iters])
                 (0, (0, 0), replicate (length pts1) False);
            best_translation' =
              (if best_inliers > 0
               then
                 let inlier_pts1 = mask_select pts1 best_mask;
                     inlier_pts2 = mask_select pts2 best_mask;
                     dx = median rnd (map2 (\<lambda>q p. rnd (fst q - fst p)) inlier_pts2 inlier_pts1);
                     dy = median rnd (map2 (\<lambda>q p. rnd (snd q - snd p)) inlier_pts2 inlier_pts1)
                 in (dx, dy)
               else best_translation);
            inlier_ratio = (if n_points > 0 then real best_inliers / real n_points else 0)
        in \<lparr>translation = best_translation', num_inliers = best_inliers,
             inlier_ratio = inlier_ratio, inliers = best_mask\<rparr>)"

text \<open>The score of the hypothesis generated by the pair \<open>idx\<close>: its number of inliers.\<close>

definition hypothesis_score ::
  "(real \<Rightarrow> real) \<Rightarrow> point list \<Rightarrow> point list \<Rightarrow> real \<Rightarrow> nat \<Rightarrow> nat" where
  "hypothesis_score rnd pts1 pts2 threshold idx =
     count_true (inlier_mask rnd pts1 pts2 threshold (sample_translation rnd pts1 pts2 idx))"

lemma ransac_loop_cases:
  "ransac_loop rnd pts1 pts2 thr idxs (b, t, m) = (b', t', m') \<Longrightarrow>
     (b' = b \<and> t' = t \<and> m' = m \<and> (\<forall>j<length idxs. hypothesis_score rnd pts1 pts2 thr (idxs ! j) \<le> b))
   \<or> (\<exists>k<length idxs. b' = hypothesis_score rnd pts1 pts2 thr (idxs ! k)
         \<and> t' = sample_translation rnd pts1 pts2 (idxs ! k)
         \<and> m' = inlier_mask rnd pts1 pts2 thr (sample_translation rnd pts1 pts2 (idxs ! k))
         \<and> b < b'
         \<and> (\<forall>j<k. hypothesis_score rnd pts1 pts2 thr (idxs ! j) < b')
         \<and> (\<forall>j<length idxs. hypothesis_score rnd pts1 pts2 thr (idxs ! j) \<le> b'))"
proof (induction idxs arbitrary: b t m)
  case Nil
  then show ?case by simp
next
  case (Cons idx rest)
  let ?sc = "hypothesis_score rnd pts1 pts2 thr"
  let ?t1 = "sample_translation rnd pts1 pts2 idx"
  let ?m1 = "inlier_mask rnd pts1 pts2 thr ?t1"
  show ?case
  proof (cases "?sc idx > b")
    case True
    with Cons.prems have run: "ransac_loop rnd pts1 pts2 thr rest (?sc idx, ?t1, ?m1) = (b', t', m')"
      by (simp add: Let_def hypothesis_score_def)
    from Cons.IH [OF run] show ?thesis
    proof
      assume same: "b' = ?sc idx \<and> t' = ?t1 \<and> m' = ?m1 \<and> (\<forall>j<length rest. ?sc (rest ! j) \<le> ?sc idx)"
      have "\<forall>j<length (idx # rest). ?sc ((idx # rest) ! j) \<le> b'"
        using same by (auto simp: nth_Cons split: nat.splits)
      with same True have "0 < length (idx # rest) \<and> b' = ?sc ((idx # rest) ! 0)
         \<and> t' = sample_translation rnd pts1 pts2 ((idx # rest) ! 0)
         \<and> m' = inlier_mask rnd pts1 pts2 thr (sample_translation rnd pts1 pts2 ((idx # rest) ! 0))
         \<and> b < b'
         \<and> (\<forall>j<0. ?sc ((idx # rest) ! j) < b')
         \<and> (\<forall>j<length (idx # rest). ?sc ((idx # rest) ! j) \<le> b')"
        by simp
      then show ?thesis by blast
    next
      assume "\<exists>k<length rest. b' = ?sc (rest ! k)
         \<and> t' = sample_translation rnd pts1 pts2 (rest ! k)
         \<and> m' = inlier_mask rnd pts1 pts2 thr (sample_translation rnd pts1 pts2 (rest ! k))
         \<and> ?sc idx < b'
         \<and> (\<forall>j<k. ?sc (rest ! j) < b')
         \<and> (\<forall>j<length rest. ?sc (rest ! j) \<le> b')"
      then obtain k where k: "k < length rest" "b' = ?sc (rest ! k)"
         "t' = sample_translation rnd pts1 pts2 (rest ! k)"
         "m' = inlier_mask rnd pts1 pts2 thr (sample_translation rnd pts1 pts2 (rest ! k))"
         "?sc idx < b'" "\<forall>j<k. ?sc (rest ! j) < b'" "\<forall>j<length rest. ?sc (rest ! j) \<le> b'"
        by blast
      have "Suc k < length (idx # rest) \<and> b' = ?sc ((idx # rest) ! Suc k)
         \<and> t' = sample_translation rnd pts1 pts2 ((idx # rest) ! Suc k)
         \<and> m' = inlier_mask rnd pts1 pts2 thr (sample_translation rnd pts1 pts2 ((idx # rest) ! Suc k))
         \<and> b < b'
         \<and> (\<forall>j<Suc k. ?sc ((idx # rest) ! j) < b')
         \<and> (\<forall>j<length (idx # rest). ?sc ((idx # rest) ! j) \<le> b')"
        using k True by (auto simp: nth_Cons less_Suc_eq_0_disj split: nat.splits)
      then show ?thesis by blast
    qed
  next
    case False
    with Cons.prems have run: "ransac_loop rnd pts1 pts2 thr rest (b, t, m) = (b', t', m')"
      by (simp add: Let_def hypothesis_score_def)
    from Cons.IH [OF run] show ?thesis
    proof
      assume "b' = b \<and> t' = t \<and> m' = m \<and> (\<forall>j<length rest. ?sc (rest ! j) \<le> b)"
      with False show ?thesis
        by (auto simp: nth_Cons split: nat.splits)
    next
      assume "\<exists>k<length rest. b' = ?sc (rest ! k)
         \<and> t' = sample_translation rnd pts1 pts2 (rest ! k)
         \<and> m' = inlier_mask rnd pts1 pts2 thr (sample_translation rnd pts1 pts2 (rest ! k))
         \<and> b < b'
         \<and> (\<forall>j<k. ?sc (rest ! j) < b')
         \<and> (\<forall>j<length rest. ?sc (rest ! j) \<le> b')"
      then obtain k where k: "k < length rest" "b' = ?sc (rest ! k)"
         "t' = sample_translation rnd pts1 pts2 (rest ! k)"
         "m' = inlier_mask rnd pts1 pts2 thr (sample_translation rnd pts1 pts2 (rest ! k))"
         "b < b'" "\<forall>j<k. ?sc (rest ! j) < b'" "\<forall>j<length rest. ?sc (rest ! j) \<le> b'"
        by blast
      have "Suc k < length (idx # rest) \<and> b' = ?sc ((idx # rest) ! Suc k)
         \<and> t' = sample_translation rnd pts1 pts2 ((idx # rest) ! Suc k)
         \<and> m' = inlier_mask rnd pts1 pts2 thr (sample_translation rnd pts1 pts2 ((idx # rest) ! Suc k))
         \<and> b < b'
         \<and> (\<forall>j<Suc k. ?sc ((idx # rest) ! j) < b')
         \<and> (\<forall>j<length (idx # rest). ?sc ((idx # rest) ! j) \<le> b')"
        using k False by (auto simp: nth_Cons less_Suc_eq_0_disj split: nat.splits)
      then show ?thesis by blast
    qed
  qed
qed

lemma mask_select_nth:
  "length msk = length xs \<Longrightarrow>
     mask_select xs msk = map (nth xs) (filter (nth msk) [0..<length xs])"
proof (induction xs arbitrary: msk)
  case Nil
  then show ?case by (simp add: mask_select_def)
next
  case (Cons x xs)
  then obtain b bs where msk: "msk = b # bs" "length bs = length xs"
    by (cases msk) auto
  have upt: "[0..<length (x # xs)] = 0 # map Suc [0..<length xs]"
    by (simp add: upt_conv_Cons map_Suc_upt del: upt_Suc)
  from Cons.IH [OF msk(2)] show ?case
    unfolding upt by (simp add: msk mask_select_def filter_map comp_def)
qed

lemma map2_nth:
  "map2 f (map (nth ys) ks) (map (nth xs) ks) = map (\<lambda>k. f (ys ! k) (xs ! k)) ks"
  by (induction ks) auto


lemma count_true_pos: "i < length m \<Longrightarrow> m ! i \<Longrightarrow> 0 < count_true m"
  unfolding count_true_def
  by (metis filter_id_conv length_greater_0_conv filter_empty_conv nth_mem id_apply)

lemma count_true_replicate_False: "count_true (replicate n False) = 0"
  by (simp add: count_true_def)

lemma count_true_zero: "count_true m = 0 \<Longrightarrow> i < length m \<Longrightarrow> \<not> m ! i"
  using count_true_pos [of i m] by auto

lemma length_inlier_mask:
  "length pts2 = length pts1 \<Longrightarrow> length (inlier_mask rnd pts1 pts2 thr t) = length pts1"
  by (simp add: inlier_mask_def)


text \<open>A selected index exists exactly when the mask has a true entry.\<close>

lemma selection_nonempty:
  "filter (\<lambda>i. m ! i) [0..<length m] \<noteq> [] \<longleftrightarrow> 0 < count_true m"
proof
  assume "filter (\<lambda>i. m ! i) [0..<length m] \<noteq> []"
  then obtain i where "i < length m" "m ! i"
    by (auto simp: filter_empty_conv)
  then show "0 < count_true m" by (rule count_true_pos)
next
  assume "0 < count_true m"
  then obtain b where "b \<in> set m" "b"
    by (auto simp: count_true_def filter_empty_conv)
  then obtain i where "i < length m" "m ! i"
    by (auto simp: in_set_conv_nth)
  then show "filter (\<lambda>i. m ! i) [0..<length m] \<noteq> []"
    by (auto simp: filter_empty_conv)
qed

text \<open>What the loop leaves behind when it starts from the estimator's initial state.\<close>

lemma ransac_loop_initial:
  assumes run: "ransac_loop rnd pts1 pts2 thr idxs (0, (0, 0), replicate n False) = (b, t, m)"
  shows "(\<forall>j<length idxs. hypothesis_score rnd pts1 pts2 thr (idxs ! j) \<le> b)
    \<and> (b = 0 \<longrightarrow> t = (0, 0) \<and> m = replicate n False)
    \<and> (0 < b \<longrightarrow> (\<exists>k<length idxs. b = hypothesis_score rnd pts1 pts2 thr (idxs ! k)
         \<and> t = sample_translation rnd pts1 pts2 (idxs ! k)
         \<and> m = inlier_mask rnd pts1 pts2 thr (sample_translation rnd pts1 pts2 (idxs ! k))
         \<and> (\<forall>j<k. hypothesis_score rnd pts1 pts2 thr (idxs ! j) < b)))"
  using ransac_loop_cases [OF run] by auto

lemma prod_cases3_eq: "\<exists>b t m. (x :: nat \<times> (real \<times> real) \<times> bool list) = (b, t, m)"
  by (cases x) auto

text \<open>
  The refinement as the specification words it: the coordinate-wise median of
  \<open>pts2[i] - pts1[i]\<close> over the indices \<open>i\<close> the mask selects, and no value when the
  mask selects none. The source computes it through \<open>pts1[best_mask]\<close> and
  \<open>pts2[best_mask]\<close>; \<open>estimate_unfold\<close> below proves the two agree.
\<close>

definition refined_translation ::
  "(real \<Rightarrow> real) \<Rightarrow> point list \<Rightarrow> point list \<Rightarrow> bool list \<Rightarrow> (real \<times> real) option" where
  "refined_translation rnd pts1 pts2 msk =
     (let sel = filter (\<lambda>i. msk ! i) [0..<length pts1]
      in if sel = [] then None
         else Some (median rnd (map (\<lambda>i. rnd (fst (pts2 ! i) - fst (pts1 ! i))) sel),
                    median rnd (map (\<lambda>i. rnd (snd (pts2 ! i) - snd (pts1 ! i))) sel)))"

lemma estimate_unfold:
  assumes n: "1 \<le> length pts1" and len: "length pts2 = length pts1"
    and run: "ransac_loop rnd pts1 pts2 thr (map draws [0..<max_iters])
                (0, (0, 0), replicate (length pts1) False) = (b, t, m)"
  shows "num_inliers (estimate_pure_translation_ransac rnd pts1 pts2 thr max_iters draws) = b"
    and "inliers (estimate_pure_translation_ransac rnd pts1 pts2 thr max_iters draws) = m"
    and "inlier_ratio (estimate_pure_translation_ransac rnd pts1 pts2 thr max_iters draws) =
          real b / real (length pts1)"
    and "0 < b \<Longrightarrow>
          Some (translation (estimate_pure_translation_ransac rnd pts1 pts2 thr max_iters draws)) =
          refined_translation rnd pts1 pts2 m"
    and "b = 0 \<Longrightarrow>
          translation (estimate_pure_translation_ransac rnd pts1 pts2 thr max_iters draws) = t"
    and "length m = length pts1" and "count_true m = b"
proof -
  note loop = ransac_loop_initial [OF run]
  show lm: "length m = length pts1"
    using loop len by (cases "b = 0") (auto simp: length_inlier_mask)
  show cm: "count_true m = b"
    using loop by (cases "b = 0") (auto simp: count_true_replicate_False hypothesis_score_def)
  from n have ne: "pts1 \<noteq> []" by auto
  let ?r = "estimate_pure_translation_ransac rnd pts1 pts2 thr max_iters draws"
  show "num_inliers ?r = b" "inliers ?r = m" "inlier_ratio ?r = real b / real (length pts1)"
    using ne run by (simp_all add: estimate_pure_translation_ransac_def Let_def del: upt_Suc)
  show "translation ?r = t" if "b = 0"
    using ne run that by (simp add: estimate_pure_translation_ransac_def Let_def del: upt_Suc)
  show "Some (translation ?r) = refined_translation rnd pts1 pts2 m" if "0 < b"
  proof -
    have s1: "mask_select pts1 m = map (nth pts1) (filter (nth m) [0..<length pts1])"
      using lm by (rule mask_select_nth)
    have s2: "mask_select pts2 m = map (nth pts2) (filter (nth m) [0..<length pts1])"
      using mask_select_nth [of m pts2] lm len by simp
    have "filter (\<lambda>i. m ! i) [0..<length m] \<noteq> []"
      using that cm by (simp add: selection_nonempty)
    then have sel: "filter (nth m) [0..<length pts1] \<noteq> []"
      by (simp add: lm)
    show ?thesis
      using ne run that sel
      by (simp add: estimate_pure_translation_ransac_def Let_def map2_nth s1 s2
          refined_translation_def del: upt_Suc)
  qed
qed

lemma ransac_estimate_facts:
  fixes pts1 pts2 :: "point list" and threshold :: real and max_iters :: nat
    and draws :: "nat \<Rightarrow> nat" and rnd :: "real \<Rightarrow> real"
  assumes n: "1 \<le> length pts1" and len: "length pts2 = length pts1"
  defines "r \<equiv> estimate_pure_translation_ransac rnd pts1 pts2 threshold max_iters draws"
  defines "score \<equiv> \<lambda>k. hypothesis_score rnd pts1 pts2 threshold (draws k)"
  shows "(\<forall>k<max_iters. score k \<le> num_inliers r)
    \<and> (0 < num_inliers r \<longrightarrow>
         (\<exists>k<max_iters. score k = num_inliers r \<and> (\<forall>j<k. score j < score k)
            \<and> inliers r = inlier_mask rnd pts1 pts2 threshold
                 (sample_translation rnd pts1 pts2 (draws k))))
    \<and> (0 < num_inliers r \<longrightarrow>
         Some (translation r) = refined_translation rnd pts1 pts2 (inliers r))
    \<and> (num_inliers r = 0 \<longrightarrow>
         translation r = (0, 0) \<and> inliers r = replicate (length pts1) False)
    \<and> inlier_ratio r = real (num_inliers r) / real (length pts1)"
proof -
  obtain b t m where run: "ransac_loop rnd pts1 pts2 threshold (map draws [0..<max_iters])
                (0, (0, 0), replicate (length pts1) False) = (b, t, m)"
    using prod_cases3_eq by blast
  note u = estimate_unfold [OF n len run]
  note loop = ransac_loop_initial [OF run]
  have hi: "\<forall>k<max_iters. score k \<le> b"
    using loop by (simp add: score_def)
  have first: "0 < b \<longrightarrow> (\<exists>k<max_iters. score k = b \<and> (\<forall>j<k. score j < score k)
            \<and> m = inlier_mask rnd pts1 pts2 threshold (sample_translation rnd pts1 pts2 (draws k)))"
  proof
    assume "0 < b"
    with loop obtain k where k: "k < max_iters"
       "b = hypothesis_score rnd pts1 pts2 threshold (map draws [0..<max_iters] ! k)"
       "m = inlier_mask rnd pts1 pts2 threshold
              (sample_translation rnd pts1 pts2 (map draws [0..<max_iters] ! k))"
       "\<forall>j<k. hypothesis_score rnd pts1 pts2 threshold (map draws [0..<max_iters] ! j) < b"
      by auto
    then have "score k = b \<and> (\<forall>j<k. score j < score k)
            \<and> m = inlier_mask rnd pts1 pts2 threshold (sample_translation rnd pts1 pts2 (draws k))"
      by (simp add: score_def)
    with k(1) show "\<exists>k<max_iters. score k = b \<and> (\<forall>j<k. score j < score k)
            \<and> m = inlier_mask rnd pts1 pts2 threshold (sample_translation rnd pts1 pts2 (draws k))"
      by blast
  qed
  have zero: "b = 0 \<longrightarrow> t = (0, 0) \<and> m = replicate (length pts1) False"
    using loop by blast
  show ?thesis
    unfolding r_def u(1) u(2) u(3)
    using hi first zero u(4) u(5) by (auto simp: r_def [symmetric])
qed



lemma sqrt_2500: "sqrt 2500 = 50"
  by (rule real_sqrt_unique) simp_all

lemma upt_0_1: "[0..<1] = [0]"
  by simp

lemma upt_0_2: "[0..<2] = [0, Suc 0]"
  by (simp add: upt_rec numeral_2_eq_2)

text \<open>A fixed sequence of draws for the worked example: pair 2 first, then pair 0.\<close>

definition demo_draws :: "nat \<Rightarrow> nat" where
  "demo_draws k = (if k = 0 then 2 else 0)"

lemma demo_estimate:
  "estimate_pure_translation_ransac round32 [(0, 0), (1, 1), (5, 5)] [(2, 3), (3, 4), (37, 48)]
      5 2 demo_draws
    = \<lparr>translation = (2, 3), num_inliers = 2, inlier_ratio = 2 / 3, inliers = [True, True, False]\<rparr>"
  by (simp add: estimate_pure_translation_ransac_def Let_def upt_0_2 demo_draws_def
      sample_translation_def inlier_mask_def residual_def count_true_def mask_select_def
      median_def sqrt_2500)

text \<open>
  One pair in \<open>float32\<close>: the difference \<open>0.5 - 16777216\<close> rounds to \<open>-16777216\<close>, so
  the hypothesis moves the first point to \<open>0\<close>, at distance \<open>0.5\<close> from the second.
\<close>

lemma rounded_estimate:
  "estimate_pure_translation_ransac round32 [(16777216, 0)] [(1 / 2, 0)] (1 / 4) (Suc 0) (\<lambda>k. 0)
    = \<lparr>translation = (0, 0), num_inliers = 0, inlier_ratio = 0, inliers = [False]\<rparr>"
  by (simp add: estimate_pure_translation_ransac_def Let_def
      sample_translation_def inlier_mask_def residual_def count_true_def
      round32_tie round32_half round32_quarter round32_neg_half real_sqrt_divide)

text \<open>
  Claim C6, as amended. The estimator keeps the hypothesis with the highest inlier count,
  the first one seen among equals (every earlier draw scored strictly less). If that
  count is positive, the returned translation is the coordinate-wise median of
  \<open>pts2 - pts1\<close> over the retained inlier set; if no hypothesis had an inlier, the
  returned translation is \<open>(0, 0)\<close> and the mask is all false. The returned ratio is the
  inlier count over the number of points.
\<close>

theorem ransac_best_hypothesis:
  fixes pts1 pts2 :: "point list" and threshold :: real and max_iters :: nat
    and draws :: "nat \<Rightarrow> nat" and rnd :: "real \<Rightarrow> real"
  assumes n: "1 \<le> length pts1" and len: "length pts2 = length pts1"
  defines "r \<equiv> estimate_pure_translation_ransac rnd pts1 pts2 threshold max_iters draws"
  defines "score \<equiv> \<lambda>k. hypothesis_score rnd pts1 pts2 threshold (draws k)"
  shows "(\<forall>k<max_iters. score k \<le> num_inliers r)
    \<and> (0 < num_inliers r \<longrightarrow>
         (\<exists>k<max_iters. score k = num_inliers r \<and> (\<forall>j<k. score j < score k)
            \<and> inliers r = inlier_mask rnd pts1 pts2 threshold
                 (sample_translation rnd pts1 pts2 (draws k))))
    \<and> (0 < num_inliers r \<longrightarrow>
         Some (translation r) = refined_translation rnd pts1 pts2 (inliers r))
    \<and> (num_inliers r = 0 \<longrightarrow>
         translation r = (0, 0) \<and> inliers r = replicate (length pts1) False)
    \<and> inlier_ratio r = real (num_inliers r) / real (length pts1)"
  unfolding r_def score_def by (rule ransac_estimate_facts [OF n len])

theorem ransac_best_hypothesis_witness:
  "num_inliers (estimate_pure_translation_ransac round32
       [(0, 0), (1, 1), (5, 5)] [(2, 3), (3, 4), (37, 48)] 5 2 demo_draws) = 2
   \<and> hypothesis_score round32 [(0, 0), (1, 1), (5, 5)] [(2, 3), (3, 4), (37, 48)] 5
        (demo_draws 0) \<le> 2
   \<and> Some (translation (estimate_pure_translation_ransac round32
       [(0, 0), (1, 1), (5, 5)] [(2, 3), (3, 4), (37, 48)] 5 2 demo_draws))
       = refined_translation round32 [(0, 0), (1, 1), (5, 5)] [(2, 3), (3, 4), (37, 48)]
           [True, True, False]
   \<and> refined_translation round32 [(0, 0), (1, 1), (5, 5)] [(2, 3), (3, 4), (37, 48)]
        [True, True, False] = Some (2, 3)"
proof -
  have pre: "1 \<le> length [(0, 0), (1, 1), (5, 5 :: real)]"
    "length [(2, 3), (3, 4), (37, 48 :: real)] = length [(0, 0), (1, 1), (5, 5 :: real)]"
    by simp_all
  have "refined_translation round32 [(0, 0), (1, 1), (5, 5)] [(2, 3), (3, 4), (37, 48)]
      [True, True, False] = Some (2, 3)"
    by (simp add: refined_translation_def upt_rec median_def)
  then show ?thesis
    using ransac_best_hypothesis [OF pre, where max_iters = 2 and rnd = round32
        and threshold = 5 and draws = demo_draws]
    by (simp add: demo_estimate)
qed

text \<open>
  The claim as stated gives the median in every case. In the \<open>float32\<close> run below no
  hypothesis has an inlier: the retained set is empty, there is no median over it, and
  the estimator returns the translation \<open>(0, 0)\<close> it started with.
\<close>

theorem ransac_median_counterexample:
  "translation (estimate_pure_translation_ransac round32
       [(16777216, 0)] [(1 / 2, 0)] (1 / 4) 1 (\<lambda>k. 0)) = (0, 0)
   \<and> inliers (estimate_pure_translation_ransac round32
       [(16777216, 0)] [(1 / 2, 0)] (1 / 4) 1 (\<lambda>k. 0)) = [False]
   \<and> refined_translation round32 [(16777216, 0)] [(1 / 2, 0)] [False] = None
   \<and> Some (translation (estimate_pure_translation_ransac round32
       [(16777216, 0)] [(1 / 2, 0)] (1 / 4) 1 (\<lambda>k. 0)))
      \<noteq> refined_translation round32 [(16777216, 0)] [(1 / 2, 0)]
           (inliers (estimate_pure_translation_ransac round32
              [(16777216, 0)] [(1 / 2, 0)] (1 / 4) 1 (\<lambda>k. 0)))"
  by (simp add: rounded_estimate refined_translation_def)




section \<open>Pipeline (pipeline.py)\<close>

text \<open>
  The fields of \<^verbatim>\<open>Config\<close> that steps 2 to 7 of \<^verbatim>\<open>PanoramaStitcher.run\<close> read.
\<close>

record config =
  match_ratio_threshold :: real
  ransac_threshold :: real
  ransac_max_iters :: nat
  enable_drift_correction :: bool
  blend_method :: string

text \<open>
  The attributes of \<^verbatim>\<open>PanoramaStitcher\<close> that the steps read and write
  (\<open>self.translations\<close> is the field \<open>pair_translations\<close>). File names, EXIF data and the
  output directory are left out.
\<close>

record ('img, 'wimg, 'feat) stitcher =
  images_data :: "'img list"
  warped_images :: "'wimg list"
  features :: "'feat list"
  pair_translations :: "pair_record list"
  focal_length :: real

text \<open>
  The functions the pipeline calls into OpenCV-backed modules are parameters of the
  model: the projector \<^verbatim>\<open>warp_cylindrical(img, focal_length)\<close>, the detector
  \<^verbatim>\<open>extract_sift_features\<close>, the matcher and the compositor \<^verbatim>\<open>blend_images\<close>.
  \<open>match_features\<close> stands for \<^verbatim>\<open>match_features\<close> read together with the keypoints:
  each match is the pair of its two keypoint coordinates, so that
  \<^verbatim>\<open>extract_match_points\<close> turns the list into its two columns, each converted to a
  \<open>float32\<close> array. \<open>image_width\<close> is \<open>shape[1]\<close> of a warped image.
\<close>

record ('img, 'wimg, 'feat, 'pano) collaborators =
  warp_cylindrical :: "'img \<Rightarrow> real \<Rightarrow> 'wimg"
  extract_sift_features :: "'wimg \<Rightarrow> 'feat"
  match_features :: "'feat \<Rightarrow> 'feat \<Rightarrow> real \<Rightarrow> (point \<times> point) list"
  image_width :: "'wimg \<Rightarrow> nat"
  blend_images :: "'wimg list \<Rightarrow> (real \<times> real) list \<Rightarrow> string \<Rightarrow> py_error + 'pano"

text \<open>\<open>np.float32\<close> applied to one coordinate pair.\<close>

definition to_float32 :: "point \<Rightarrow> point" where
  "to_float32 p = (round32 (fst p), round32 (snd p))"

definition extract_match_points :: "(point \<times> point) list \<Rightarrow> point list \<times> point list" where
  "extract_match_points matches =
     (map (\<lambda>m. to_float32 (fst m)) matches, map (\<lambda>m. to_float32 (snd m)) matches)"

text \<open>Step 2, \<^verbatim>\<open>_warp_images\<close>: every image is warped with the current focal length.\<close>

definition warp_images ::
  "('img, 'wimg, 'feat, 'pano) collaborators \<Rightarrow> ('img, 'wimg, 'feat) stitcher
     \<Rightarrow> ('img, 'wimg, 'feat) stitcher" where
  "warp_images ext st =
     st\<lparr>warped_images := map (\<lambda>img. warp_cylindrical ext img (focal_length st)) (images_data st)\<rparr>"

text \<open>Step 3, \<^verbatim>\<open>_extract_features\<close>.\<close>

definition extract_features ::
  "('img, 'wimg, 'feat, 'pano) collaborators \<Rightarrow> ('img, 'wimg, 'feat) stitcher
     \<Rightarrow> ('img, 'wimg, 'feat) stitcher" where
  "extract_features ext st =
     st\<lparr>features := map (extract_sift_features ext) (warped_images st)\<rparr>"

text \<open>
  Step 4, \<^verbatim>\<open>_match_and_align\<close>. \<open>align_pair\<close> is the body of the loop for the pair
  \<open>(i, i + 1)\<close> once the matches are known; \<open>draws i\<close> is the sample sequence of the
  estimator's call for that pair.
\<close>

definition align_pair :: "config \<Rightarrow> (nat \<Rightarrow> nat) \<Rightarrow> nat \<Rightarrow> (point \<times> point) list \<Rightarrow> pair_record" where
  "align_pair cfg draws i matches =
     (if length matches < 4
      then \<lparr>translation = (0, 0), num_inliers = 0, inlier_ratio = 0,
            pair = (i, i + 1), num_matches = length matches\<rparr>
      else
        let (pts1, pts2) = extract_match_points matches;
            result = estimate_pure_translation_ransac round32 pts1 pts2
                       (ransac_threshold cfg) (ransac_max_iters cfg) draws
        in \<lparr>translation = translation result, num_inliers = num_inliers result,
             inlier_ratio = inlier_ratio result,
             pair = (i, i + 1), num_matches = length matches\<rparr>)"

definition match_and_align ::
  "('img, 'wimg, 'feat, 'pano) collaborators \<Rightarrow> config \<Rightarrow> (nat \<Rightarrow> nat \<Rightarrow> nat)
     \<Rightarrow> ('img, 'wimg, 'feat) stitcher \<Rightarrow> ('img, 'wimg, 'feat) stitcher" where
  "match_and_align ext cfg draws st =
     st\<lparr>pair_translations :=
          map (\<lambda>i. align_pair cfg (draws i) i
                     (match_features ext (features st ! i) (features st ! (i + 1))
                        (match_ratio_threshold cfg)))
              [0..<length (features st) - 1]\<rparr>"

text \<open>
  Step 6, \<^verbatim>\<open>_apply_drift_correction\<close>. The outcome records which branch ran: the two
  warnings of the source (\<open>SkippedFewMatches\<close>, \<open>SkippedPoorQuality\<close>) or the correction
  that was written to \<open>drift_correction.json\<close>. \<open>self.features[0]\<close> and
  \<open>self.warped_images[0]\<close> raise \<open>IndexError\<close> on an empty list.
\<close>

datatype drift_outcome = SkippedFewMatches | SkippedPoorQuality | Applied drift_correction

definition apply_drift_correction ::
  "('img, 'wimg, 'feat, 'pano) collaborators \<Rightarrow> config \<Rightarrow> (nat \<Rightarrow> nat)
     \<Rightarrow> ('img, 'wimg, 'feat) stitcher
     \<Rightarrow> py_error + (drift_outcome \<times> ('img, 'wimg, 'feat) stitcher)" where
  "apply_drift_correction ext cfg draws st =
     (case features st of
        [] \<Rightarrow> Inl IndexError
      | feat1 # _ \<Rightarrow>
         let feat_last = last (features st);
             matches = match_features ext feat1 feat_last (match_ratio_threshold cfg)
         in if length matches < 4 then Inr (SkippedFewMatches, st)
            else
              let (pts1, pts_last) = extract_match_points matches;
                  first_last_result = estimate_pure_translation_ransac round32 pts1 pts_last
                       (ransac_threshold cfg) (ransac_max_iters cfg) draws
              in if should_apply_drift_correction first_last_result default_min_inlier_ratio
                 then
                   (case warped_images st of
                      [] \<Rightarrow> Inl IndexError
                    | w0 # _ \<Rightarrow>
                       (case correct_drift (pair_translations st) first_last_result
                               (focal_length st) (image_width ext w0) of
                          Inl e \<Rightarrow> Inl e
                        | Inr correction \<Rightarrow>
                            Inr (Applied correction,
                                 st\<lparr>focal_length := corrected_focal_length correction\<rparr>)))
                 else Inr (SkippedPoorQuality, st))"

text \<open>
  Step 7, \<^verbatim>\<open>_blend_images\<close>: the compositor is called on \<open>self.warped_images\<close> and the
  accumulated offsets.
\<close>

definition blend_images_step ::
  "('img, 'wimg, 'feat, 'pano) collaborators \<Rightarrow> config \<Rightarrow> ('img, 'wimg, 'feat) stitcher
     \<Rightarrow> py_error + 'pano" where
  "blend_images_step ext cfg st =
     (let pairwise_t = map translation (pair_translations st);
          cumulative_t = compute_cumulative_translations pairwise_t
      in blend_images ext (warped_images st) cumulative_t (blend_method cfg))"

text \<open>
  Steps 2 to 7 of \<^verbatim>\<open>run\<close>, from the state \<^verbatim>\<open>_load_images\<close> leaves (images and
  focal length set). It returns the state after step 6 and the panorama of step 7.
\<close>

definition run_steps ::
  "('img, 'wimg, 'feat, 'pano) collaborators \<Rightarrow> config \<Rightarrow> (nat \<Rightarrow> nat \<Rightarrow> nat) \<Rightarrow> (nat \<Rightarrow> nat)
     \<Rightarrow> ('img, 'wimg, 'feat) stitcher
     \<Rightarrow> py_error + (('img, 'wimg, 'feat) stitcher \<times> 'pano)" where
  "run_steps ext cfg draws draws_first_last st0 =
     (let st2 = warp_images ext st0;
          st3 = extract_features ext st2;
          st4 = match_and_align ext cfg draws st3
      in case (if enable_drift_correction cfg
               then map_sum id snd (apply_drift_correction ext cfg draws_first_last st4)
               else Inr st4) of
           Inl e \<Rightarrow> Inl e
         | Inr st6 \<Rightarrow>
             (case blend_images_step ext cfg st6 of
                Inl e \<Rightarrow> Inl e
              | Inr panorama \<Rightarrow> Inr (st6, panorama)))"


subsection \<open>Facts about the steps\<close>

lemma should_apply_iff:
  "should_apply_drift_correction q r \<longleftrightarrow> 10 \<le> num_inliers q \<and> r \<le> inlier_ratio q"
  by (auto simp: should_apply_drift_correction_def)

lemma apply_drift_correction_many_matches:
  assumes feats: "features st \<noteq> []"
    and m: "matches = match_features ext (hd (features st)) (last (features st))
                        (match_ratio_threshold cfg)"
    and four: "4 \<le> length matches"
    and fl: "fl = estimate_pure_translation_ransac round32
                    (fst (extract_match_points matches)) (snd (extract_match_points matches))
                    (ransac_threshold cfg) (ransac_max_iters cfg) draws"
  shows "apply_drift_correction ext cfg draws st =
     (if should_apply_drift_correction fl default_min_inlier_ratio
      then (if warped_images st = [] then Inl IndexError
            else
               (case correct_drift (pair_translations st) fl (focal_length st)
                       (image_width ext (hd (warped_images st))) of
                  Inl e \<Rightarrow> Inl e
                | Inr correction \<Rightarrow>
                    Inr (Applied correction,
                         st\<lparr>focal_length := corrected_focal_length correction\<rparr>)))
      else Inr (SkippedPoorQuality, st))"
  using four feats unfolding fl m
  by (simp add: apply_drift_correction_def Let_def case_prod_unfold list.case_eq_if)

lemma apply_drift_correction_frame:
  "apply_drift_correction ext cfg draws st = Inr (out, st') \<Longrightarrow>
     warped_images st' = warped_images st \<and> pair_translations st' = pair_translations st
     \<and> images_data st' = images_data st"
  by (auto simp: apply_drift_correction_def Let_def case_prod_unfold
      split: list.splits if_splits sum.splits)

lemma align_pair_few:
  "length matches < 4 \<Longrightarrow> align_pair cfg draws i matches =
      \<lparr>translation = (0, 0), num_inliers = 0, inlier_ratio = 0,
       pair = (i, i + 1), num_matches = length matches\<rparr>"
  by (simp add: align_pair_def)

subsection \<open>A worked run\<close>

text \<open>
  Two images and a matcher that returns the first \<open>n\<close> of ten correspondences, all
  displaced by \<open>(0, 50)\<close>. The projector tags an image with the focal length it was
  warped with and the compositor returns the images it was given, so that a run shows
  which projections reach the compositor.
\<close>

definition demo_matches :: "(point \<times> point) list" where
  "demo_matches = map (\<lambda>k. ((real k, 0), (real k, 50))) [0..<10]"

definition demo_ext ::
  "nat \<Rightarrow> (string, string \<times> real, string \<times> real, (string \<times> real) list) collaborators" where
  "demo_ext n =
     \<lparr>warp_cylindrical = (\<lambda>img f. (img, f)),
      extract_sift_features = (\<lambda>w. w),
      match_features = (\<lambda>a b r. take n demo_matches),
      image_width = (\<lambda>w. 640),
      blend_images = (\<lambda>imgs ts m. Inr imgs)\<rparr>"

definition demo_cfg :: config where
  "demo_cfg = \<lparr>match_ratio_threshold = 7 / 10, ransac_threshold = 5, ransac_max_iters = 2,
      enable_drift_correction = True, blend_method = ''average''\<rparr>"

definition demo_st0 :: "(string, string \<times> real, string \<times> real) stitcher" where
  "demo_st0 = \<lparr>images_data = [''left'', ''right''], warped_images = [], features = [],
      pair_translations = [], focal_length = 500\<rparr>"

lemma demo_matches_eq:
  "demo_matches = [((0, 0), (0, 50)), ((1, 0), (1, 50)), ((2, 0), (2, 50)), ((3, 0), (3, 50)),
     ((4, 0), (4, 50)), ((5, 0), (5, 50)), ((6, 0), (6, 50)), ((7, 0), (7, 50)),
     ((8, 0), (8, 50)), ((9, 0), (9, 50))]"
  by (simp add: demo_matches_def upt_rec)

lemma demo_estimate10:
  "estimate_pure_translation_ransac round32
      (fst (extract_match_points demo_matches)) (snd (extract_match_points demo_matches))
      5 2 (\<lambda>k. 0)
    = \<lparr>translation = (0, 50), num_inliers = 10, inlier_ratio = 1,
       inliers = [True, True, True, True, True, True, True, True, True, True]\<rparr>"
  by (simp add: demo_matches_eq extract_match_points_def to_float32_def
      estimate_pure_translation_ransac_def Let_def sample_translation_def inlier_mask_def
      residual_def count_true_def mask_select_def median_def upt_0_2)

lemma demo_estimate4:
  "estimate_pure_translation_ransac round32
      (fst (extract_match_points (take 4 demo_matches)))
      (snd (extract_match_points (take 4 demo_matches))) 5 2 (\<lambda>k. 0)
    = \<lparr>translation = (0, 50), num_inliers = 4, inlier_ratio = 1,
       inliers = [True, True, True, True]\<rparr>"
  by (simp add: demo_matches_eq extract_match_points_def to_float32_def
      estimate_pure_translation_ransac_def Let_def sample_translation_def inlier_mask_def
      residual_def count_true_def mask_select_def median_def upt_0_2)
definition demo_st4 :: "(string, string \<times> real, string \<times> real) stitcher" where
  "demo_st4 =
    \<lparr>images_data = [''left'', ''right''],
     warped_images = [(''left'', 500), (''right'', 500)],
     features = [(''left'', 500), (''right'', 500)],
     pair_translations = [\<lparr>translation = (0, 50), num_inliers = 10, inlier_ratio = 1,
         pair = (0, Suc 0), num_matches = 10\<rparr>],
     focal_length = 500\<rparr>"

lemma demo_align:
  "align_pair demo_cfg (\<lambda>k. 0) 0 demo_matches =
     \<lparr>translation = (0, 50), num_inliers = 10, inlier_ratio = 1, pair = (0, Suc 0),
      num_matches = 10\<rparr>"
  by (simp add: align_pair_def case_prod_unfold demo_cfg_def demo_estimate10)
     (simp add: demo_matches_eq)

lemma take_demo_matches: "take 10 demo_matches = demo_matches"
  by (simp add: demo_matches_def)

lemma demo_match_and_align:
  "match_and_align (demo_ext 10) demo_cfg (\<lambda>i k. 0)
      (extract_features (demo_ext 10) (warp_images (demo_ext 10) demo_st0)) = demo_st4"
  by (simp add: match_and_align_def extract_features_def warp_images_def demo_ext_def
        demo_st0_def take_demo_matches demo_align demo_st4_def)

lemma demo_drift:
  "apply_drift_correction (demo_ext 10) demo_cfg (\<lambda>k. 0) demo_st4 =
     Inr (Applied \<lparr>corrected_focal_length = 500 - 25 / pi,
            original_focal_length = 500, gap_angle = 1 / 10,
            gap_angle_degrees = 18 / pi,
            correction_per_pair = 1 / 20, num_images = 2, correction_applied = True\<rparr>,
          demo_st4\<lparr>focal_length := 500 - 25 / pi\<rparr>)"
proof -
  have len: "\<not> length demo_matches < 4"
    by (simp add: demo_matches_def)
  have "(500::real) * (1 - (50 / 500) / (2 * pi)) = 500 - 25 / pi"
    by (simp add: field_simps)
  then show ?thesis
    by (simp add: apply_drift_correction_def demo_ext_def take_demo_matches len Let_def
        case_prod_unfold demo_cfg_def demo_estimate10 should_apply_iff
        default_min_inlier_ratio_def correct_drift_Inr demo_st4_def)
qed

lemma demo_run:
  "run_steps (demo_ext 10) demo_cfg (\<lambda>i k. 0) (\<lambda>k. 0) demo_st0 =
     Inr (demo_st4\<lparr>focal_length := 500 - 25 / pi\<rparr>, [(''left'', 500), (''right'', 500)])"
proof -
  have e: "enable_drift_correction demo_cfg"
    by (simp add: demo_cfg_def)
  have b: "blend_images_step (demo_ext 10) demo_cfg (demo_st4\<lparr>focal_length := 500 - 25 / pi\<rparr>)
      = Inr [(''left'', 500), (''right'', 500)]"
    by (simp add: blend_images_step_def demo_ext_def demo_st4_def)
  show ?thesis
    unfolding run_steps_def Let_def demo_match_and_align
    by (simp add: e demo_drift b)
qed

subsection \<open>Drift gate\<close>

text \<open>
  Claim C4. The gate holds exactly when the first/last estimate has at least 10 inliers
  and an inlier ratio of at least 0.3, and with 5 inliers it fails whatever the ratio.
  In the pipeline step (at least 4 first/last matches, a warped image, a non-zero focal
  length) the correction is applied when the gate holds, and otherwise the step returns
  the outcome \<open>SkippedPoorQuality\<close> with the state unchanged and no error.
\<close>

theorem drift_gate:
  fixes st :: "('img, 'wimg, 'feat) stitcher" and q :: "'a estimate_scheme"
  assumes feats: "features st \<noteq> []"
    and m: "matches = match_features ext (hd (features st)) (last (features st))
                        (match_ratio_threshold cfg)"
    and four: "4 \<le> length matches"
    and fl: "fl = estimate_pure_translation_ransac round32
                    (fst (extract_match_points matches)) (snd (extract_match_points matches))
                    (ransac_threshold cfg) (ransac_max_iters cfg) draws"
    and w: "warped_images st \<noteq> []" and f: "focal_length st \<noteq> 0"
  shows "(should_apply_drift_correction q default_min_inlier_ratio
           \<longleftrightarrow> 10 \<le> num_inliers q \<and> 3 / 10 \<le> inlier_ratio q)
    \<and> (num_inliers q = 5 \<longrightarrow> \<not> should_apply_drift_correction q min_ratio)
    \<and> (10 \<le> num_inliers fl \<and> 3 / 10 \<le> inlier_ratio fl \<longrightarrow>
         (\<exists>c. correct_drift (pair_translations st) fl (focal_length st)
                 (image_width ext (hd (warped_images st))) = Inr c
            \<and> apply_drift_correction ext cfg draws st =
                Inr (Applied c, st\<lparr>focal_length := corrected_focal_length c\<rparr>)))
    \<and> (\<not> (10 \<le> num_inliers fl \<and> 3 / 10 \<le> inlier_ratio fl) \<longrightarrow>
         apply_drift_correction ext cfg draws st = Inr (SkippedPoorQuality, st))"
proof (intro conjI impI)
  show "should_apply_drift_correction q default_min_inlier_ratio
           \<longleftrightarrow> 10 \<le> num_inliers q \<and> 3 / 10 \<le> inlier_ratio q"
    by (simp add: should_apply_iff default_min_inlier_ratio_def)
  show "\<not> should_apply_drift_correction q min_ratio" if "num_inliers q = 5"
    using that by (simp add: should_apply_iff)
next
  assume "10 \<le> num_inliers fl \<and> 3 / 10 \<le> inlier_ratio fl"
  then have gate: "should_apply_drift_correction fl default_min_inlier_ratio"
    by (simp add: should_apply_iff default_min_inlier_ratio_def)
  show "\<exists>c. correct_drift (pair_translations st) fl (focal_length st)
                 (image_width ext (hd (warped_images st))) = Inr c
            \<and> apply_drift_correction ext cfg draws st =
                Inr (Applied c, st\<lparr>focal_length := corrected_focal_length c\<rparr>)"
    using gate w by (simp add: apply_drift_correction_many_matches [OF feats m four fl]
        correct_drift_Inr [OF f])
next
  assume "\<not> (10 \<le> num_inliers fl \<and> 3 / 10 \<le> inlier_ratio fl)"
  then have gate: "\<not> should_apply_drift_correction fl default_min_inlier_ratio"
    by (simp add: should_apply_iff default_min_inlier_ratio_def)
  show "apply_drift_correction ext cfg draws st = Inr (SkippedPoorQuality, st)"
    using gate by (simp add: apply_drift_correction_many_matches [OF feats m four fl])
qed

theorem drift_gate_witness:
  "apply_drift_correction (demo_ext 4) demo_cfg (\<lambda>k. 0) demo_st4 = Inr (SkippedPoorQuality, demo_st4)
   \<and> (\<exists>c. apply_drift_correction (demo_ext 10) demo_cfg (\<lambda>k. 0) demo_st4 =
            Inr (Applied c, demo_st4\<lparr>focal_length := corrected_focal_length c\<rparr>)
          \<and> corrected_focal_length c = 500 - 25 / pi)
   \<and> \<not> should_apply_drift_correction
          \<lparr>translation = (0, 0), num_inliers = 5, inlier_ratio = 1\<rparr> default_min_inlier_ratio"
proof -
  have feats: "features demo_st4 \<noteq> []" and w: "warped_images demo_st4 \<noteq> []"
    and f: "focal_length demo_st4 \<noteq> 0"
    by (simp_all add: demo_st4_def)
  have m4: "match_features (demo_ext 4) (hd (features demo_st4)) (last (features demo_st4))
       (match_ratio_threshold demo_cfg) = take 4 demo_matches"
    and m10: "match_features (demo_ext 10) (hd (features demo_st4)) (last (features demo_st4))
       (match_ratio_threshold demo_cfg) = demo_matches"
    by (simp_all add: demo_ext_def take_demo_matches)
  have four4: "4 \<le> length (take 4 demo_matches)" and four10: "4 \<le> length demo_matches"
    by (simp_all add: demo_matches_def)
  have cfg: "ransac_threshold demo_cfg = 5" "ransac_max_iters demo_cfg = 2"
    by (simp_all add: demo_cfg_def)
  note g4 = drift_gate [OF feats m4 [symmetric] four4 refl w f,
      where q = "\<lparr>translation = (0, 0), num_inliers = 5, inlier_ratio = 1\<rparr>"
        and min_ratio = default_min_inlier_ratio and draws = "\<lambda>k. 0"]
  note g10 = drift_gate [OF feats m10 [symmetric] four10 refl w f,
      where q = "\<lparr>translation = (0, 0), num_inliers = 5, inlier_ratio = 1\<rparr>"
        and min_ratio = default_min_inlier_ratio and draws = "\<lambda>k. 0"]
  have skip: "apply_drift_correction (demo_ext 4) demo_cfg (\<lambda>k. 0) demo_st4 =
      Inr (SkippedPoorQuality, demo_st4)"
    using g4 by (simp add: cfg demo_estimate4)
  have gate: "\<not> should_apply_drift_correction
          \<lparr>translation = (0, 0), num_inliers = 5, inlier_ratio = 1\<rparr> default_min_inlier_ratio"
    using g4 by simp
  from g10 obtain c where c:
      "apply_drift_correction (demo_ext 10) demo_cfg (\<lambda>k. 0) demo_st4 =
            Inr (Applied c, demo_st4\<lparr>focal_length := corrected_focal_length c\<rparr>)"
    by (auto simp: cfg demo_estimate10)
  from c have "corrected_focal_length c = 500 - 25 / pi"
    by (auto simp: demo_drift)
  with c skip gate show ?thesis by blast
qed

subsection \<open>The compositor's input after drift correction\<close>

text \<open>
  Claim C5. The claim is that after an applied drift correction the compositor consumes
  projections made with the corrected focal length. The code does not do this: step 6
  only stores the corrected value in \<open>focal_length\<close>, and step 7 composites
  \<open>warped_images\<close> as step 2 left them. Whenever a run succeeds, the images handed to
  \<open>blend_images\<close> are the projections at the focal length the run started with.
\<close>

theorem run_blends_original_projections:
  assumes run: "run_steps ext cfg draws draws_first_last st0 = Inr (st6, panorama)"
  shows "warped_images st6 =
      map (\<lambda>img. warp_cylindrical ext img (focal_length st0)) (images_data st0)
    \<and> blend_images ext
        (map (\<lambda>img. warp_cylindrical ext img (focal_length st0)) (images_data st0))
        (compute_cumulative_translations (map translation (pair_translations st6)))
        (blend_method cfg) = Inr panorama"
proof -
  let ?st4 = "match_and_align ext cfg draws (extract_features ext (warp_images ext st0))"
  have w4: "warped_images ?st4 =
      map (\<lambda>img. warp_cylindrical ext img (focal_length st0)) (images_data st0)"
    by (simp add: match_and_align_def extract_features_def warp_images_def)
  have st6: "warped_images st6 = warped_images ?st4"
  proof (cases "enable_drift_correction cfg")
    case True
    with run obtain out where "apply_drift_correction ext cfg draws_first_last ?st4 = Inr (out, st6)"
      by (cases "apply_drift_correction ext cfg draws_first_last ?st4")
         (auto simp: run_steps_def Let_def split: sum.splits)
    then show ?thesis by (simp add: apply_drift_correction_frame)
  next
    case False
    with run show ?thesis
      by (auto simp: run_steps_def Let_def split: sum.splits)
  qed
  have "blend_images_step ext cfg st6 = Inr panorama"
    using run by (auto simp: run_steps_def Let_def split: sum.splits if_splits)
  then show ?thesis
    using st6 w4 by (simp add: blend_images_step_def Let_def)
qed

theorem run_blends_original_projections_witness:
  "\<exists>st6. run_steps (demo_ext 10) demo_cfg (\<lambda>i k. 0) (\<lambda>k. 0) demo_st0
            = Inr (st6, [(''left'', 500), (''right'', 500)])
      \<and> focal_length st6 = 500 - 25 / pi
      \<and> focal_length st6 \<noteq> focal_length demo_st0
      \<and> warped_images st6 =
          map (\<lambda>img. warp_cylindrical (demo_ext 10) img 500) (images_data demo_st0)
      \<and> warped_images st6 \<noteq>
          map (\<lambda>img. warp_cylindrical (demo_ext 10) img (focal_length st6)) (images_data demo_st0)"
proof -
  let ?st6 = "demo_st4\<lparr>focal_length := 500 - 25 / pi\<rparr>"
  have f0: "focal_length demo_st0 = 500"
    by (simp add: demo_st0_def)
  have w: "warped_images ?st6 =
      map (\<lambda>img. warp_cylindrical (demo_ext 10) img 500) (images_data demo_st0)"
    using run_blends_original_projections [OF demo_run] by (simp only: f0)
  have ne: "focal_length ?st6 \<noteq> focal_length demo_st0"
    by (simp add: f0)
  have ne2: "warped_images ?st6 \<noteq>
      map (\<lambda>img. warp_cylindrical (demo_ext 10) img (focal_length ?st6)) (images_data demo_st0)"
    by (simp add: demo_st4_def demo_ext_def demo_st0_def)
  have f: "focal_length ?st6 = 500 - 25 / pi"
    by simp
  from demo_run f ne w ne2 show ?thesis
    by blast
qed

subsection \<open>Too few correspondences\<close>

text \<open>
  Claim C7. A pair with fewer than 4 matches gets the record with translation
  \<open>(0, 0)\<close>, \<open>num_inliers = 0\<close> and \<open>inlier_ratio = 0\<close>; the estimator given no point
  pair returns the same zero estimate; neither is an error, and the alignment step still
  produces one record for every adjacent pair.
\<close>

theorem insufficient_matches_degrade:
  fixes st :: "('img, 'wimg, 'feat) stitcher"
  shows "(length matches < 4 \<longrightarrow> align_pair cfg draws i matches =
            \<lparr>translation = (0, 0), num_inliers = 0, inlier_ratio = 0,
             pair = (i, i + 1), num_matches = length matches\<rparr>)
    \<and> (length pts1 < 1 \<longrightarrow> estimate_pure_translation_ransac rnd pts1 pts2 thr max_iters draws =
            \<lparr>translation = (0, 0), num_inliers = 0, inlier_ratio = 0, inliers = []\<rparr>)
    \<and> length (pair_translations (match_and_align ext cfg pair_draws st)) = length (features st) - 1
    \<and> (\<forall>j. j + 1 < length (features st)
           \<and> length (match_features ext (features st ! j) (features st ! (j + 1))
                 (match_ratio_threshold cfg)) < 4 \<longrightarrow>
         pair_translations (match_and_align ext cfg pair_draws st) ! j =
            \<lparr>translation = (0, 0), num_inliers = 0, inlier_ratio = 0, pair = (j, j + 1),
             num_matches = length (match_features ext (features st ! j) (features st ! (j + 1))
                 (match_ratio_threshold cfg))\<rparr>)"
proof (intro conjI allI impI)
  show "align_pair cfg draws i matches =
            \<lparr>translation = (0, 0), num_inliers = 0, inlier_ratio = 0,
             pair = (i, i + 1), num_matches = length matches\<rparr>" if "length matches < 4"
    using that by (rule align_pair_few)
  show "estimate_pure_translation_ransac rnd pts1 pts2 thr max_iters draws =
            \<lparr>translation = (0, 0), num_inliers = 0, inlier_ratio = 0, inliers = []\<rparr>"
    if "length pts1 < 1"
    using that by (simp add: estimate_pure_translation_ransac_def)
  show "length (pair_translations (match_and_align ext cfg pair_draws st)) = length (features st) - 1"
    by (simp add: match_and_align_def)
next
  fix j
  assume a: "j + 1 < length (features st)
           \<and> length (match_features ext (features st ! j) (features st ! (j + 1))
                 (match_ratio_threshold cfg)) < 4"
  then have j: "j < length (features st) - 1" by auto
  then have "pair_translations (match_and_align ext cfg pair_draws st) ! j =
      align_pair cfg (pair_draws j) j
        (match_features ext (features st ! j) (features st ! (j + 1)) (match_ratio_threshold cfg))"
    by (simp add: match_and_align_def del: upt_Suc)
  with a show "pair_translations (match_and_align ext cfg pair_draws st) ! j =
            \<lparr>translation = (0, 0), num_inliers = 0, inlier_ratio = 0, pair = (j, j + 1),
             num_matches = length (match_features ext (features st ! j) (features st ! (j + 1))
                 (match_ratio_threshold cfg))\<rparr>"
    by (simp add: align_pair_few)
qed

theorem insufficient_matches_degrade_witness:
  "align_pair demo_cfg (\<lambda>k. 0) 3 (take 3 demo_matches) =
      \<lparr>translation = (0, 0), num_inliers = 0, inlier_ratio = 0, pair = (3, 4), num_matches = 3\<rparr>
   \<and> estimate_pure_translation_ransac round32 [] [] 5 2 (\<lambda>k. 0) =
      \<lparr>translation = (0, 0), num_inliers = 0, inlier_ratio = 0, inliers = []\<rparr>
   \<and> pair_translations (match_and_align (demo_ext 3) demo_cfg (\<lambda>i k. 0) demo_st4) ! 0 =
      \<lparr>translation = (0, 0), num_inliers = 0, inlier_ratio = 0, pair = (0, 1), num_matches = 3\<rparr>"
proof -
  have l: "length demo_matches = 10"
    by (simp add: demo_matches_def)
  have m: "match_features (demo_ext 3) = (\<lambda>a b r. take 3 demo_matches)"
    by (simp add: demo_ext_def)
  have f: "length (features demo_st4) = 2"
    by (simp add: demo_st4_def)
  note t = insufficient_matches_degrade [of "take 3 demo_matches" demo_cfg "\<lambda>k. 0" 3
      "[]" round32 "[]" 5 2 "demo_ext 3" "\<lambda>i k. 0" demo_st4]
  from t have "align_pair demo_cfg (\<lambda>k. 0) 3 (take 3 demo_matches) =
      \<lparr>translation = (0, 0), num_inliers = 0, inlier_ratio = 0, pair = (3, 4), num_matches = 3\<rparr>"
    by (simp add: l)
  moreover from t have "estimate_pure_translation_ransac round32 [] [] 5 2 (\<lambda>k. 0) =
      \<lparr>translation = (0, 0), num_inliers = 0, inlier_ratio = 0, inliers = []\<rparr>"
    by simp
  moreover from t have "\<forall>j. j + 1 < length (features demo_st4)
           \<and> length (match_features (demo_ext 3) (features demo_st4 ! j) (features demo_st4 ! (j + 1))
                 (match_ratio_threshold demo_cfg)) < 4 \<longrightarrow>
         pair_translations (match_and_align (demo_ext 3) demo_cfg (\<lambda>i k. 0) demo_st4) ! j =
            \<lparr>translation = (0, 0), num_inliers = 0, inlier_ratio = 0, pair = (j, j + 1),
             num_matches = length (match_features (demo_ext 3) (features demo_st4 ! j)
                 (features demo_st4 ! (j + 1)) (match_ratio_threshold demo_cfg))\<rparr>"
    by blast
  then have "pair_translations (match_and_align (demo_ext 3) demo_cfg (\<lambda>i k. 0) demo_st4) ! 0 =
      \<lparr>translation = (0, 0), num_inliers = 0, inlier_ratio = 0, pair = (0, 1), num_matches = 3\<rparr>"
    by (simp add: m l f)
  ultimately show ?thesis by blast
qed

section \<open>Border trim (stitching/crop.py)\<close>

text \<open>
  An image is the list of its rows, every row the list of its pixels; a NumPy array is
  rectangular, so all rows have the same length. \<^verbatim>\<open>crop_panorama\<close> first turns the
  image into a grey image (\<open>cv2.cvtColor\<close> for three channels, the image itself for two
  dimensions); both are pixel-wise, so the model takes the grey value of a pixel as the
  parameter \<open>brightness\<close>. The argument \<open>None\<close> and an array with \<open>size == 0\<close> raise
  \<open>ValueError\<close>.
\<close>

type_synonym 'px image = "'px list list"

text \<open>\<open>np.where(v)[0]\<close>: the indices at which a boolean vector is true, ascending.\<close>

definition where_true :: "bool list \<Rightarrow> nat list" where
  "where_true v = filter (\<lambda>i. v ! i) [0..<length v]"

text \<open>The slice \<open>image[y_min : y_max + 1, x_min : x_max + 1]\<close>.\<close>

definition slice2 :: "'px image \<Rightarrow> nat \<Rightarrow> nat \<Rightarrow> nat \<Rightarrow> nat \<Rightarrow> 'px image" where
  "slice2 img y_min y_max x_min x_max =
     map (\<lambda>row. take (x_max + 1 - x_min) (drop x_min row))
       (take (y_max + 1 - y_min) (drop y_min img))"

definition crop_panorama :: "('px \<Rightarrow> nat) \<Rightarrow> 'px image option \<Rightarrow> nat \<Rightarrow> py_error + 'px image" where
  "crop_panorama brightness image_opt threshold =
     (case image_opt of
        None \<Rightarrow> Inl ValueError
      | Some img \<Rightarrow>
         if img = [] \<or> hd img = [] then Inl ValueError
         else
           let non_black = map (map (\<lambda>p. brightness p > threshold)) img;
               rows = map (\<lambda>row. list_ex id row) non_black;
               cols = map (\<lambda>x. list_ex (\<lambda>row. row ! x) non_black) [0..<length (hd img)]
           in if \<not> list_ex id rows \<or> \<not> list_ex id cols then Inr img
              else
                let y_min = hd (where_true rows); y_max = last (where_true rows);
                    x_min = hd (where_true cols); x_max = last (where_true cols)
                in Inr (slice2 img y_min y_max x_min x_max))"

text \<open>The default of the argument \<open>threshold\<close>.\<close>

definition default_crop_threshold :: nat where
  "default_crop_threshold = 10"

text \<open>
  A canvas made of an interior and a border of \<open>n\<close> pixels \<open>b\<close> on every side, for the
  crop's boundary test.
\<close>

definition pad_border :: "nat \<Rightarrow> 'px \<Rightarrow> 'px image \<Rightarrow> 'px image" where
  "pad_border n b interior =
     (let blank = replicate (length (hd interior) + 2 * n) b
      in replicate n blank @ map (\<lambda>row. replicate n b @ row @ replicate n b) interior
           @ replicate n blank)"

subsection \<open>The bounding box\<close>

lemma where_true_set: "set (where_true v) = {i. i < length v \<and> v ! i}"
  by (auto simp: where_true_def)

lemma where_true_sorted: "sorted (where_true v)"
  by (simp add: where_true_def sorted_wrt_filter)

lemma where_true_nonempty: "where_true v \<noteq> [] \<longleftrightarrow> list_ex id v"
proof -
  have "where_true v \<noteq> [] \<longleftrightarrow> set (where_true v) \<noteq> {}"
    by simp
  also have "\<dots> \<longleftrightarrow> (\<exists>i<length v. v ! i)"
    unfolding where_true_set by blast
  also have "\<dots> \<longleftrightarrow> (\<exists>x\<in>set v. x)"
    by (metis in_set_conv_nth)
  also have "\<dots> \<longleftrightarrow> list_ex id v"
    by (simp add: list_ex_iff)
  finally show ?thesis .
qed

lemma sorted_hd_le: "sorted xs \<Longrightarrow> x \<in> set xs \<Longrightarrow> hd xs \<le> x"
  by (cases xs) auto

lemma sorted_le_last: "sorted xs \<Longrightarrow> x \<in> set xs \<Longrightarrow> x \<le> last xs"
  by (induction xs) (auto split: if_splits)

text \<open>First and last true index of a vector that has a true entry.\<close>

lemma where_true_bounds:
  assumes "list_ex id v"
  shows "hd (where_true v) < length v" "v ! hd (where_true v)"
    "last (where_true v) < length v" "v ! last (where_true v)"
    "hd (where_true v) \<le> last (where_true v)"
    "\<And>i. i < length v \<Longrightarrow> v ! i \<Longrightarrow> hd (where_true v) \<le> i \<and> i \<le> last (where_true v)"
proof -
  from assms have ne: "where_true v \<noteq> []"
    by (simp add: where_true_nonempty)
  then have h: "hd (where_true v) \<in> set (where_true v)"
    and l: "last (where_true v) \<in> set (where_true v)"
    by simp_all
  from h show "hd (where_true v) < length v" "v ! hd (where_true v)"
    by (simp_all add: where_true_set)
  from l show "last (where_true v) < length v" "v ! last (where_true v)"
    by (simp_all add: where_true_set)
  from h show "hd (where_true v) \<le> last (where_true v)"
    by (rule sorted_le_last [OF where_true_sorted])
  fix i assume "i < length v" "v ! i"
  then have "i \<in> set (where_true v)"
    by (simp add: where_true_set)
  then show "hd (where_true v) \<le> i \<and> i \<le> last (where_true v)"
    using sorted_hd_le [OF where_true_sorted, of i v] sorted_le_last [OF where_true_sorted, of i v]
    by simp
qed

text \<open>
  \<open>bright_at\<close>: the pixel in row \<open>y\<close>, column \<open>x\<close> is brighter than the threshold.
  \<open>row_flags\<close> and \<open>col_flags\<close> are the vectors \<open>rows\<close> and \<open>cols\<close> of the source.
\<close>

definition bright_at :: "('px \<Rightarrow> nat) \<Rightarrow> nat \<Rightarrow> 'px image \<Rightarrow> nat \<Rightarrow> nat \<Rightarrow> bool" where
  "bright_at brightness threshold img y x \<longleftrightarrow> brightness (img ! y ! x) > threshold"

definition row_flags :: "('px \<Rightarrow> nat) \<Rightarrow> nat \<Rightarrow> 'px image \<Rightarrow> bool list" where
  "row_flags brightness threshold img =
     map (\<lambda>row. list_ex id row) (map (map (\<lambda>p. brightness p > threshold)) img)"

definition col_flags :: "('px \<Rightarrow> nat) \<Rightarrow> nat \<Rightarrow> 'px image \<Rightarrow> bool list" where
  "col_flags brightness threshold img =
     map (\<lambda>x. list_ex (\<lambda>row. row ! x) (map (map (\<lambda>p. brightness p > threshold)) img))
       [0..<length (hd img)]"

lemma crop_panorama_flags:
  "crop_panorama brightness (Some img) threshold =
     (if img = [] \<or> hd img = [] then Inl ValueError
      else if \<not> list_ex id (row_flags brightness threshold img)
              \<or> \<not> list_ex id (col_flags brightness threshold img) then Inr img
      else Inr (slice2 img
        (hd (where_true (row_flags brightness threshold img)))
        (last (where_true (row_flags brightness threshold img)))
        (hd (where_true (col_flags brightness threshold img)))
        (last (where_true (col_flags brightness threshold img)))))"
  by (simp add: crop_panorama_def row_flags_def col_flags_def Let_def)

lemma list_ex_nth: "list_ex P xs \<longleftrightarrow> (\<exists>i<length xs. P (xs ! i))"
  unfolding list_ex_iff by (metis in_set_conv_nth)

lemma row_flags_nth:
  assumes "list_all (\<lambda>row. length row = w) img" "y < length img"
  shows "row_flags b t img ! y \<longleftrightarrow> (\<exists>x<w. bright_at b t img y x)"
proof -
  from assms have "length (img ! y) = w"
    by (simp add: list_all_length)
  with assms(2) show ?thesis
    by (auto simp: row_flags_def list_ex_nth bright_at_def)
qed

lemma col_flags_nth:
  assumes "list_all (\<lambda>row. length row = w) img" "img \<noteq> []" "x < w"
  shows "col_flags b t img ! x \<longleftrightarrow> (\<exists>y<length img. bright_at b t img y x)"
proof -
  from assms have w: "length (hd img) = w"
    by (cases img) simp_all
  have len: "\<And>y. y < length img \<Longrightarrow> length (img ! y) = w"
    using assms(1) by (simp add: list_all_length)
  have "col_flags b t img ! x \<longleftrightarrow>
      (\<exists>y<length img. map (\<lambda>p. b p > t) (img ! y) ! x)"
    using assms(3) w by (auto simp: col_flags_def list_ex_nth simp del: upt_Suc)
  also have "\<dots> \<longleftrightarrow> (\<exists>y<length img. bright_at b t img y x)"
    using len assms(3) by (auto simp: bright_at_def)
  finally show ?thesis .
qed

lemma length_row_flags: "length (row_flags b t img) = length img"
  by (simp add: row_flags_def)

lemma length_col_flags: "length (col_flags b t img) = length (hd img)"
  by (simp add: col_flags_def)

lemma any_row_flags:
  assumes "list_all (\<lambda>row. length row = w) img"
  shows "list_ex id (row_flags b t img) \<longleftrightarrow> (\<exists>y<length img. \<exists>x<w. bright_at b t img y x)"
  unfolding list_ex_nth length_row_flags id_apply
  using row_flags_nth [OF assms, of _ b t] by blast

lemma any_col_flags:
  assumes "list_all (\<lambda>row. length row = w) img" "img \<noteq> []"
  shows "list_ex id (col_flags b t img) \<longleftrightarrow> (\<exists>y<length img. \<exists>x<w. bright_at b t img y x)"
proof -
  from assms have w: "length (hd img) = w"
    by (cases img) simp_all
  have "list_ex id (col_flags b t img) \<longleftrightarrow> (\<exists>x<w. \<exists>y<length img. bright_at b t img y x)"
    unfolding list_ex_nth length_col_flags id_apply w
    using col_flags_nth [OF assms, of _ b t] by blast
  then show ?thesis by blast
qed

lemma crop_no_bright:
  assumes rect: "list_all (\<lambda>row. length row = w) img" and h: "0 < length img" and w: "0 < w"
    and none: "\<not> (\<exists>y<length img. \<exists>x<w. bright_at b t img y x)"
  shows "crop_panorama b (Some img) t = Inr img"
proof -
  from h have ne: "img \<noteq> []" by auto
  with rect w have "hd img \<noteq> []" by (cases img) auto
  moreover have "\<not> list_ex id (row_flags b t img)"
    using none by (simp add: any_row_flags [OF rect])
  ultimately show ?thesis
    using ne by (simp add: crop_panorama_flags)
qed

lemma crop_bounding_box:
  assumes rect: "list_all (\<lambda>row. length row = w) img" and h: "0 < length img" and w: "0 < w"
    and some: "\<exists>y<length img. \<exists>x<w. bright_at b t img y x"
  shows "\<exists>y0 y1 x0 x1. crop_panorama b (Some img) t = Inr (slice2 img y0 y1 x0 x1)
      \<and> y0 \<le> y1 \<and> y1 < length img \<and> x0 \<le> x1 \<and> x1 < w
      \<and> (\<forall>y<length img. \<forall>x<w. bright_at b t img y x \<longrightarrow>
            y0 \<le> y \<and> y \<le> y1 \<and> x0 \<le> x \<and> x \<le> x1)
      \<and> (\<exists>x<w. bright_at b t img y0 x) \<and> (\<exists>x<w. bright_at b t img y1 x)
      \<and> (\<exists>y<length img. bright_at b t img y x0) \<and> (\<exists>y<length img. bright_at b t img y x1)"
proof -
  let ?rows = "row_flags b t img" and ?cols = "col_flags b t img"
  let ?y0 = "hd (where_true ?rows)" and ?y1 = "last (where_true ?rows)"
  let ?x0 = "hd (where_true ?cols)" and ?x1 = "last (where_true ?cols)"
  from h have ne: "img \<noteq> []" by auto
  with rect have wd: "length (hd img) = w" by (cases img) auto
  with w have hne: "hd img \<noteq> []" by auto
  have ar: "list_ex id ?rows"
    using some by (simp add: any_row_flags [OF rect])
  have ac: "list_ex id ?cols"
    using some by (simp add: any_col_flags [OF rect ne])
  note rb = where_true_bounds [OF ar, unfolded length_row_flags]
  note cb = where_true_bounds [OF ac, unfolded length_col_flags wd]
  have crop: "crop_panorama b (Some img) t = Inr (slice2 img ?y0 ?y1 ?x0 ?x1)"
    using ne hne ar ac by (simp add: crop_panorama_flags)
  have box: "\<forall>y<length img. \<forall>x<w. bright_at b t img y x \<longrightarrow>
            ?y0 \<le> y \<and> y \<le> ?y1 \<and> ?x0 \<le> x \<and> x \<le> ?x1"
  proof (intro allI impI)
    fix y x assume y: "y < length img" and x: "x < w" and br: "bright_at b t img y x"
    from row_flags_nth [OF rect y, of b t] x br have "?rows ! y" by blast
    from rb(6) [OF y this] have 1: "?y0 \<le> y \<and> y \<le> ?y1" .
    from col_flags_nth [OF rect ne x, of b t] y br have "?cols ! x" by blast
    from cb(6) [OF x this] have 2: "?x0 \<le> x \<and> x \<le> ?x1" .
    from 1 2 show "?y0 \<le> y \<and> y \<le> ?y1 \<and> ?x0 \<le> x \<and> x \<le> ?x1" by simp
  qed
  have t0: "\<exists>x<w. bright_at b t img ?y0 x"
    using row_flags_nth [OF rect rb(1), of b t] rb(2) by simp
  have t1: "\<exists>x<w. bright_at b t img ?y1 x"
    using row_flags_nth [OF rect rb(3), of b t] rb(4) by simp
  have l0: "\<exists>y<length img. bright_at b t img y ?x0"
    using col_flags_nth [OF rect ne cb(1), of b t] cb(2) by simp
  have l1: "\<exists>y<length img. bright_at b t img y ?x1"
    using col_flags_nth [OF rect ne cb(3), of b t] cb(4) by simp
  from crop rb(5) rb(3) cb(5) cb(3) box t0 t1 l0 l1 show ?thesis
    by blast
qed

lemma pad_border_rows:
  assumes "interior \<noteq> []" "list_all (\<lambda>row. length row = wi) interior"
  shows "pad_border n bpx interior =
     replicate n (replicate (wi + 2 * n) bpx)
       @ map (\<lambda>row. replicate n bpx @ row @ replicate n bpx) interior
       @ replicate n (replicate (wi + 2 * n) bpx)"
proof -
  from assms have "length (hd interior) = wi" by (cases interior) auto
  then show ?thesis by (simp add: pad_border_def Let_def)
qed

lemma pad_border_rect:
  assumes "interior \<noteq> []" "list_all (\<lambda>row. length row = wi) interior"
  shows "list_all (\<lambda>row. length row = wi + 2 * n) (pad_border n bpx interior)"
    and "length (pad_border n bpx interior) = length interior + 2 * n"
  using assms(2) unfolding pad_border_rows [OF assms]
  by (auto simp: list_all_iff)

lemma pad_border_nth:
  assumes ne: "interior \<noteq> []" and rect: "list_all (\<lambda>row. length row = wi) interior"
    and y: "y < length interior + 2 * n" and x: "x < wi + 2 * n"
  shows "pad_border n bpx interior ! y ! x =
     (if n \<le> y \<and> y < n + length interior \<and> n \<le> x \<and> x < n + wi
      then interior ! (y - n) ! (x - n) else bpx)"
proof -
  consider "y < n" | "n \<le> y" "y < n + length interior" | "n + length interior \<le> y"
    by linarith
  then show ?thesis
  proof cases
    case 1
    then show ?thesis
      using x unfolding pad_border_rows [OF ne rect] by (simp add: nth_append)
  next
    case 2
    then have len: "length (interior ! (y - n)) = wi"
      using rect by (auto simp: list_all_length)
    from 2 have yn: "y - n < length interior" by arith
    from 2 yn have row: "pad_border n bpx interior ! y =
        replicate n bpx @ interior ! (y - n) @ replicate n bpx"
      unfolding pad_border_rows [OF ne rect] by (simp add: nth_append)
    show ?thesis
      using 2 x len unfolding row by (auto simp: nth_append)
  next
    case 3
    then have yn: "\<not> y - n < length interior" "\<not> y < n" "y - n - length interior < n"
      using y by arith+
    then have "pad_border n bpx interior ! y = replicate (wi + 2 * n) bpx"
      unfolding pad_border_rows [OF ne rect] by (simp add: nth_append)
    with 3 x show ?thesis by simp
  qed
qed

lemma slice2_pad_border:
  assumes ne: "interior \<noteq> []" and rect: "list_all (\<lambda>row. length row = wi) interior"
    and wi: "0 < wi"
  shows "slice2 (pad_border n bpx interior) n (n + length interior - 1) n (n + wi - 1) = interior"
proof -
  from ne have hi: "0 < length interior" by simp
  from hi have a: "n + length interior - 1 + 1 - n = length interior" by arith
  from wi have b: "n + wi - 1 + 1 - n = wi" by arith
  have "map (\<lambda>row. take wi (drop n (replicate n bpx @ row @ replicate n bpx))) interior = interior"
    using rect by (intro map_idI) (simp add: list_all_iff)
  then show ?thesis
    unfolding pad_border_rows [OF ne rect] slice2_def a b by (simp add: o_def)
qed

lemma crop_pad_border:
  assumes ne: "interior \<noteq> []" and rect: "list_all (\<lambda>row. length row = wi) interior"
    and wi: "0 < wi" and bright: "list_all (list_all (\<lambda>p. t < b p)) interior"
    and dark: "b bpx \<le> t"
  shows "crop_panorama b (Some (pad_border n bpx interior)) t = Inr interior"
proof -
  let ?P = "pad_border n bpx interior" and ?hi = "length interior"
  note rectP = pad_border_rect(1) [OF ne rect, of n bpx]
  note lenP = pad_border_rect(2) [OF ne rect, of n bpx]
  from ne have hi: "0 < ?hi" by simp
  have inner: "\<And>i j. i < ?hi \<Longrightarrow> j < wi \<Longrightarrow> t < b (interior ! i ! j)"
    using bright rect by (simp add: list_all_length)
  have br: "bright_at b t ?P y x \<longleftrightarrow> n \<le> y \<and> y < n + ?hi \<and> n \<le> x \<and> x < n + wi"
    if "y < ?hi + 2 * n" "x < wi + 2 * n" for y x
  proof (cases "n \<le> y \<and> y < n + ?hi \<and> n \<le> x \<and> x < n + wi")
    case True
    then have "y - n < ?hi" "x - n < wi" by arith+
    moreover from True have "pad_border n bpx interior ! y ! x = interior ! (y - n) ! (x - n)"
      by (simp only: pad_border_nth [OF ne rect that] if_P)
    ultimately show ?thesis
      using inner [of "y - n" "x - n"] True by (simp add: bright_at_def)
  next
    case False
    then have "pad_border n bpx interior ! y ! x = bpx"
      by (simp only: pad_border_nth [OF ne rect that] if_False not_False_eq_True simp_thms)
    with dark False show ?thesis
      by (simp add: bright_at_def)
  qed
  have some: "\<exists>y<length ?P. \<exists>x<wi + 2 * n. bright_at b t ?P y x"
  proof (intro exI conjI)
    show "n < length ?P" using hi by (simp add: lenP)
    show "n < wi + 2 * n" using wi by simp
    show "bright_at b t ?P n n" using hi wi by (simp add: br)
  qed
  have hP: "0 < length ?P" using hi by (simp add: lenP)
  have wP: "0 < wi + 2 * n" using wi by simp
  from crop_bounding_box [OF rectP hP wP some]
  obtain y0 y1 x0 x1 where crop: "crop_panorama b (Some ?P) t = Inr (slice2 ?P y0 y1 x0 x1)"
    and ord: "y0 \<le> y1" "y1 < length ?P" "x0 \<le> x1" "x1 < wi + 2 * n"
    and box: "\<forall>y<length ?P. \<forall>x<wi + 2 * n. bright_at b t ?P y x \<longrightarrow>
            y0 \<le> y \<and> y \<le> y1 \<and> x0 \<le> x \<and> x \<le> x1"
    and t0: "\<exists>x<wi + 2 * n. bright_at b t ?P y0 x" and t1: "\<exists>x<wi + 2 * n. bright_at b t ?P y1 x"
    and l0: "\<exists>y<length ?P. bright_at b t ?P y x0" and l1: "\<exists>y<length ?P. bright_at b t ?P y x1"
    by blast
  have y0P: "y0 < ?hi + 2 * n" and y1P: "y1 < ?hi + 2 * n"
    using ord by (simp_all add: lenP)
  have x0P: "x0 < wi + 2 * n" using ord by simp
  from t0 br [OF y0P] have y0_in: "n \<le> y0" by blast
  from t1 br [OF y1P] have y1_in: "y1 < n + ?hi" by blast
  from l0 br [OF _ x0P] have x0_in: "n \<le> x0" by (auto simp: lenP)
  from l1 br [OF _ ord(4)] have x1_in: "x1 < n + wi" by (auto simp: lenP)
  have c0: "bright_at b t ?P n n" using hi wi by (simp add: br)
  have in1: "n + ?hi - 1 < ?hi + 2 * n" "n + wi - 1 < wi + 2 * n"
    using hi wi by arith+
  have c1: "bright_at b t ?P (n + ?hi - 1) (n + wi - 1)"
    unfolding br [OF in1] using hi wi by arith
  have in0: "n < length ?P" "n < wi + 2 * n"
    using hi wi by (simp_all add: lenP)
  from box in0 c0 have lo: "y0 \<le> n \<and> x0 \<le> n"
    by blast
  from in1 have in1': "n + ?hi - 1 < length ?P" by (simp add: lenP)
  from box in1' in1(2) c1 have up: "n + ?hi - 1 \<le> y1 \<and> n + wi - 1 \<le> x1"
    by blast
  from lo up y0_in y1_in x0_in x1_in
  have "y0 = n" "y1 = n + ?hi - 1" "x0 = n" "x1 = n + wi - 1" by arith+
  with crop show ?thesis
    by (simp only: slice2_pad_border [OF ne rect wi])
qed

text \<open>
  Claim C8. For a non-empty rectangular image with a pixel brighter than the threshold,
  the trim returns the slice between the first and the last row and the first and the
  last column that hold such a pixel: every bright pixel lies in the box, and each of its
  four sides holds one. With no bright pixel it returns the image unchanged. A canvas
  whose interior is brighter than the threshold everywhere, inside a border of 10 pixels
  that are not, is cropped to exactly the interior.
\<close>

theorem crop_tight_bounding_box:
  shows "(list_all (\<lambda>row. length row = w) img \<and> 0 < length img \<and> 0 < w \<longrightarrow>
      (if \<exists>y<length img. \<exists>x<w. bright_at b t img y x
       then \<exists>y0 y1 x0 x1. crop_panorama b (Some img) t = Inr (slice2 img y0 y1 x0 x1)
          \<and> y0 \<le> y1 \<and> y1 < length img \<and> x0 \<le> x1 \<and> x1 < w
          \<and> (\<forall>y<length img. \<forall>x<w. bright_at b t img y x \<longrightarrow>
                y0 \<le> y \<and> y \<le> y1 \<and> x0 \<le> x \<and> x \<le> x1)
          \<and> (\<exists>x<w. bright_at b t img y0 x) \<and> (\<exists>x<w. bright_at b t img y1 x)
          \<and> (\<exists>y<length img. bright_at b t img y x0)
          \<and> (\<exists>y<length img. bright_at b t img y x1)
       else crop_panorama b (Some img) t = Inr img))
    \<and> (interior \<noteq> [] \<and> list_all (\<lambda>row. length row = wi) interior \<and> 0 < wi
         \<and> list_all (list_all (\<lambda>p. t < b p)) interior \<and> b black \<le> t \<longrightarrow>
       crop_panorama b (Some (pad_border 10 black interior)) t = Inr interior)"
proof (intro conjI impI)
  assume a: "list_all (\<lambda>row. length row = w) img \<and> 0 < length img \<and> 0 < w"
  show "if \<exists>y<length img. \<exists>x<w. bright_at b t img y x
       then \<exists>y0 y1 x0 x1. crop_panorama b (Some img) t = Inr (slice2 img y0 y1 x0 x1)
          \<and> y0 \<le> y1 \<and> y1 < length img \<and> x0 \<le> x1 \<and> x1 < w
          \<and> (\<forall>y<length img. \<forall>x<w. bright_at b t img y x \<longrightarrow>
                y0 \<le> y \<and> y \<le> y1 \<and> x0 \<le> x \<and> x \<le> x1)
          \<and> (\<exists>x<w. bright_at b t img y0 x) \<and> (\<exists>x<w. bright_at b t img y1 x)
          \<and> (\<exists>y<length img. bright_at b t img y x0)
          \<and> (\<exists>y<length img. bright_at b t img y x1)
       else crop_panorama b (Some img) t = Inr img"
  proof (cases "\<exists>y<length img. \<exists>x<w. bright_at b t img y x")
    case True
    from a crop_bounding_box [OF _ _ _ True] True show ?thesis
      by (simp only: if_True)
  next
    case False
    from a crop_no_bright [OF _ _ _ False] False show ?thesis
      by (simp only: if_False)
  qed
next
  assume "interior \<noteq> [] \<and> list_all (\<lambda>row. length row = wi) interior \<and> 0 < wi
         \<and> list_all (list_all (\<lambda>p. t < b p)) interior \<and> b black \<le> t"
  then show "crop_panorama b (Some (pad_border 10 black interior)) t = Inr interior"
    by (intro crop_pad_border [where wi = wi]) simp_all
qed

theorem crop_tight_bounding_box_witness:
  "crop_panorama id (Some (pad_border 10 0 [[200, 50], [30, 90 :: nat]])) default_crop_threshold
      = Inr [[200, 50], [30, 90]]
   \<and> crop_panorama id (Some [[0, 5], [10, 3 :: nat]]) default_crop_threshold = Inr [[0, 5], [10, 3]]"
proof -
  note t = crop_tight_bounding_box [of 2 "[[0, 5], [10, 3 :: nat]]" id default_crop_threshold
      "[[200, 50], [30, 90 :: nat]]" 2 0]
  have none: "\<not> (\<exists>y<length [[0, 5], [10, 3 :: nat]]. \<exists>x<2.
      bright_at id default_crop_threshold [[0, 5], [10, 3 :: nat]] y x)"
    by (auto simp: bright_at_def default_crop_threshold_def less_2_cases_iff nth_Cons'
        numeral_2_eq_2 less_Suc_eq)
  from t have "crop_panorama id (Some (pad_border 10 0 [[200, 50], [30, 90 :: nat]]))
      default_crop_threshold = Inr [[200, 50], [30, 90]]"
    by (simp add: default_crop_threshold_def)
  moreover have "list_all (\<lambda>row. length row = 2) [[0, 5], [10, 3 :: nat]]
      \<and> 0 < length [[0, 5], [10, 3 :: nat]] \<and> 0 < (2 :: nat)"
    by simp
  with t have "if \<exists>y<length [[0, 5], [10, 3 :: nat]]. \<exists>x<2.
        bright_at id default_crop_threshold [[0, 5], [10, 3 :: nat]] y x
      then \<exists>y0 y1 x0 x1. crop_panorama id (Some [[0, 5], [10, 3 :: nat]]) default_crop_threshold
            = Inr (slice2 [[0, 5], [10, 3 :: nat]] y0 y1 x0 x1)
          \<and> y0 \<le> y1 \<and> y1 < length [[0, 5], [10, 3 :: nat]] \<and> x0 \<le> x1 \<and> x1 < 2
          \<and> (\<forall>y<length [[0, 5], [10, 3 :: nat]]. \<forall>x<2.
                bright_at id default_crop_threshold [[0, 5], [10, 3 :: nat]] y x \<longrightarrow>
                y0 \<le> y \<and> y \<le> y1 \<and> x0 \<le> x \<and> x \<le> x1)
          \<and> (\<exists>x<2. bright_at id default_crop_threshold [[0, 5], [10, 3 :: nat]] y0 x)
          \<and> (\<exists>x<2. bright_at id default_crop_threshold [[0, 5], [10, 3 :: nat]] y1 x)
          \<and> (\<exists>y<length [[0, 5], [10, 3 :: nat]].
                bright_at id default_crop_threshold [[0, 5], [10, 3 :: nat]] y x0)
          \<and> (\<exists>y<length [[0, 5], [10, 3 :: nat]].
                bright_at id default_crop_threshold [[0, 5], [10, 3 :: nat]] y x1)
      else crop_panorama id (Some [[0, 5], [10, 3 :: nat]]) default_crop_threshold
            = Inr [[0, 5], [10, 3]]"
    by blast
  with none have "crop_panorama id (Some [[0, 5], [10, 3 :: nat]]) default_crop_threshold
      = Inr [[0, 5], [10, 3]]"
    by (simp only: if_False)
  ultimately show ?thesis by blast
qed

section \<open>Canvas compositor (stitching/blending.py)\<close>

text \<open>A colour pixel is its three \<open>uint8\<close> channels.\<close>

type_synonym bgr = "nat \<times> nat \<times> nat"

text \<open>
  \<^verbatim>\<open>compute_canvas_bounds\<close> starts from \<open>(inf, -inf, inf, -inf)\<close> and folds the two
  corner coordinates of every image into the four bounds. \<open>None\<close> stands for the start
  value, where all four are infinite; from the first image on all four are finite.
  \<open>bounds_step\<close> is the body of the loop.
\<close>

type_synonym bounds = "real \<times> real \<times> real \<times> real"

definition bounds_step :: "bounds option \<Rightarrow> 'px ndarray \<times> (real \<times> real) \<Rightarrow> bounds option" where
  "bounds_step acc it =
     (let (img, (tx, ty)) = it;
          h = real (height img); w = real (width img);
          lo_x = min tx (tx + w); hi_x = max tx (tx + w);
          lo_y = min ty (ty + h); hi_y = max ty (ty + h)
      in case acc of
           None \<Rightarrow> Some (lo_x, hi_x, lo_y, hi_y)
         | Some (min_x, max_x, min_y, max_y) \<Rightarrow>
             Some (min min_x lo_x, max max_x hi_x, min min_y lo_y, max max_y hi_y))"

fun bounds_loop :: "bounds option \<Rightarrow> ('px ndarray \<times> (real \<times> real)) list \<Rightarrow> bounds option" where
  "bounds_loop acc [] = acc"
| "bounds_loop acc (it # rest) = bounds_loop (bounds_step acc it) rest"

definition compute_canvas_bounds ::
  "'px ndarray list \<Rightarrow> (real \<times> real) list \<Rightarrow> bounds option" where
  "compute_canvas_bounds images translations = bounds_loop None (zip images translations)"

text \<open>
  \<^verbatim>\<open>blend_average\<close>. The state of its loop is the \<open>float32\<close> canvas, the \<open>float32\<close>
  weight map and the messages logged so far.
\<close>

datatype log_message =
  CanvasSize int int | OutOfCanvas nat | PlacedAt nat int int | BlendingCompleted

type_synonym blend_state =
  "(nat \<Rightarrow> nat \<Rightarrow> real \<times> real \<times> real) \<times> (nat \<Rightarrow> nat \<Rightarrow> real) \<times> log_message list"

text \<open>The length of the slice \<open>a : b\<close> of an axis of length \<open>n\<close>, for \<open>0 \<le> a\<close>.\<close>

definition slice_len :: "int \<Rightarrow> int \<Rightarrow> int \<Rightarrow> int" where
  "slice_len a b n = max 0 (min b n - min a n)"

text \<open>NumPy adds an operand in place when each of its axes has the target's length or length 1.\<close>

definition broadcasts :: "int \<Rightarrow> int \<Rightarrow> bool" where
  "broadcasts operand target \<longleftrightarrow> operand = target \<or> operand = 1"

text \<open>\<open>np.any(p > 0)\<close> over the channels of one pixel, as a \<open>float32\<close>.\<close>

definition pixel_mask :: "bgr \<Rightarrow> real" where
  "pixel_mask p = (case p of (b, g, r) \<Rightarrow> if b > 0 \<or> g > 0 \<or> r > 0 then 1 else 0)"

text \<open>
  The body of the loop for image \<open>i\<close>: the offset on the canvas, the clipping of \<open>w\<close> and
  \<open>h\<close>, the guard that skips the image, and the two in-place additions on the slices
  \<open>[y_offset : y_offset + h, x_offset : x_offset + w]\<close>, which raise \<open>ValueError\<close> when the
  crop \<open>img[:h, :w]\<close> does not broadcast to the slice.
\<close>

definition place_step ::
  "int \<Rightarrow> int \<Rightarrow> real \<Rightarrow> real \<Rightarrow> nat \<Rightarrow> bgr ndarray \<times> (real \<times> real) \<Rightarrow> blend_state
     \<Rightarrow> py_error + blend_state" where
  "place_step canvas_width canvas_height min_x min_y i it st =
     (let (img, (tx, ty)) = it;
          (canvas, weights, msgs) = st;
          x_offset = np_round (tx - min_x);
          y_offset = np_round (ty - min_y);
          h = int (height img); w = int (width img);
          w = (if x_offset + w > canvas_width then canvas_width - x_offset else w);
          h = (if y_offset + h > canvas_height then canvas_height - y_offset else h);
          (w, x_offset) = (if x_offset < 0 then (w + x_offset, 0) else (w, x_offset));
          (h, y_offset) = (if y_offset < 0 then (h + y_offset, 0) else (h, y_offset))
      in if w \<le> 0 \<or> h \<le> 0 then Inr (canvas, weights, msgs @ [OutOfCanvas i])
         else
           let crop_h = min h (int (height img));
               crop_w = min w (int (width img));
               rows = slice_len y_offset (y_offset + h) canvas_height;
               cols = slice_len x_offset (x_offset + w) canvas_width
           in if \<not> (broadcasts crop_h rows \<and> broadcasts crop_w cols) then Inl ValueError
              else
                let inside = (\<lambda>Y X. y_offset \<le> int Y \<and> int Y < y_offset + rows
                                     \<and> x_offset \<le> int X \<and> int X < x_offset + cols);
                    source = (\<lambda>Y X. pixel img (if crop_h = 1 then 0 else nat (int Y - y_offset))
                                               (if crop_w = 1 then 0 else nat (int X - x_offset)));
                    canvas' = (\<lambda>Y X. if inside Y X
                                 then (case (canvas Y X, source Y X) of
                                         ((cb, cg, cr), (b, g, r)) \<Rightarrow>
                                           let m = pixel_mask (b, g, r)
                                           in (round32 (cb + round32 (real b * m)),
                                               round32 (cg + round32 (real g * m)),
                                               round32 (cr + round32 (real r * m))))
                                 else canvas Y X);
                    weights' = (\<lambda>Y X. if inside Y X
                                 then round32 (weights Y X + pixel_mask (source Y X))
                                 else weights Y X)
                in Inr (canvas', weights', msgs @ [PlacedAt i x_offset y_offset]))"

fun blend_loop ::
  "int \<Rightarrow> int \<Rightarrow> real \<Rightarrow> real \<Rightarrow> nat \<Rightarrow> (bgr ndarray \<times> (real \<times> real)) list \<Rightarrow> blend_state
     \<Rightarrow> py_error + blend_state" where
  "blend_loop canvas_width canvas_height min_x min_y i [] st = Inr st"
| "blend_loop canvas_width canvas_height min_x min_y i (it # rest) st =
     (case place_step canvas_width canvas_height min_x min_y i it st of
        Inl e \<Rightarrow> Inl e
      | Inr st' \<Rightarrow> blend_loop canvas_width canvas_height min_x min_y (i + 1) rest st')"

text \<open>
  After the loop every cell with a positive weight is divided by it, and the canvas is
  cast to \<open>uint8\<close>, which drops the fraction; the values are averages of \<open>uint8\<close>
  values, so they lie between 0 and 255. An empty image list raises \<open>ValueError\<close>; with
  no placement the bounds stay infinite and \<open>int(np.ceil(-inf))\<close> raises
  \<open>OverflowError\<close>. The function returns the panorama; the model returns the logged
  messages with it.
\<close>

definition to_uint8 :: "real \<Rightarrow> nat" where
  "to_uint8 v = nat \<lfloor>v\<rfloor>"

definition blend_average ::
  "bgr ndarray list \<Rightarrow> (real \<times> real) list \<Rightarrow> py_error + (bgr ndarray \<times> log_message list)" where
  "blend_average images translations =
     (if length images = 0 then Inl ValueError
      else case compute_canvas_bounds images translations of
             None \<Rightarrow> Inl OverflowError
           | Some (min_x, max_x, min_y, max_y) \<Rightarrow>
               let canvas_width = \<lceil>max_x - min_x\<rceil>;
                   canvas_height = \<lceil>max_y - min_y\<rceil>
               in case blend_loop canvas_width canvas_height min_x min_y 0
                         (zip images translations)
                         (\<lambda>Y X. (0, 0, 0), \<lambda>Y X. 0, [CanvasSize canvas_width canvas_height]) of
                    Inl e \<Rightarrow> Inl e
                  | Inr (canvas, weights, msgs) \<Rightarrow>
                      let normalized = (\<lambda>Y X. case canvas Y X of (cb, cg, cr) \<Rightarrow>
                             if weights Y X > 0
                             then (round32 (cb / weights Y X), round32 (cg / weights Y X),
                                   round32 (cr / weights Y X))
                             else (cb, cg, cr));
                          panorama = \<lparr>height = nat canvas_height, width = nat canvas_width,
                             pixel = (\<lambda>Y X. case normalized Y X of (cb, cg, cr) \<Rightarrow>
                                        (to_uint8 cb, to_uint8 cg, to_uint8 cr))\<rparr>
                      in Inr (panorama, msgs @ [BlendingCompleted]))"

















text \<open>
  Two overlapping images: a row of two pixels at the origin and one pixel at \<open>(1, 0)\<close>.
  The left pixel of the panorama is the first image's, the right one the average of both.
\<close>

lemma demo_blend:
  "(case blend_average
           [\<lparr>height = 1, width = 2, pixel = (\<lambda>y x. (10, 20, 30))\<rparr>,
            \<lparr>height = 1, width = 1, pixel = (\<lambda>y x. (20, 40, 61))\<rparr>]
           [(0, 0), (1, 0)] of
      Inl e \<Rightarrow> False
    | Inr (panorama, msgs) \<Rightarrow>
        height panorama = 1 \<and> width panorama = 2
        \<and> pixel panorama 0 0 = (10, 20, 30) \<and> pixel panorama 0 1 = (15, 30, 45)
        \<and> msgs = [CanvasSize 2 1, PlacedAt 0 0 0, PlacedAt 1 1 0, BlendingCompleted])"
proof -
  have r: "round32 (91 / 2) = 91 / 2"
    using round32_binade [of 5 "91 / 2"] by (simp add: pow2_def np_round_def)
  show ?thesis
    by (simp add: blend_average_def compute_canvas_bounds_def bounds_step_def place_step_def
      np_round_def slice_len_def broadcasts_def pixel_mask_def to_uint8_def Let_def r)
qed




end
